theory Spec2Isabelle
  imports Complex_Main
begin

section \<open>Data model of the load balancer (src/index.js)\<close>

text \<open>
  A worker and a forwarding destination are both JavaScript objects \<open>{host, port}\<close>.
  A worker's port is an integer; the port of a destination is whatever value the code
  stored there: a number, or \<open>undefined\<close> (\<open>None\<close>).
\<close>

record 'p endpoint =
  host :: string
  port :: 'p

type_synonym worker = "int endpoint"

text \<open>
  JavaScript numbers are IEEE 754 doubles: a finite value, \<open>Infinity\<close>, \<open>-Infinity\<close> or
  \<open>NaN\<close>. A finite double is carried as the real number it denotes (the sign of zero
  is not kept; no modelled operation tells the zeros apart).
\<close>

datatype number = Num real | Infinity | NegInfinity | NaN

type_synonym dest = "number option endpoint"

text \<open>
  Rounding a real number to the nearest double, ties to the even significand.
  Every finite double is an integer multiple of \<open>2^-1074\<close>. In these units \<open>y\<close> is the
  magnitude, \<open>excessBits\<close> the number of low bits beyond a 53-bit significand, \<open>q\<close> the
  significand before and \<open>q'\<close> after rounding; a result of \<open>2^1024\<close> or more overflows.
\<close>

function excessBits :: "nat \<Rightarrow> nat" where
  "excessBits n = (if n < 2 ^ 53 then 0 else Suc (excessBits (n div 2)))"
  by pat_completeness auto
termination
  by (relation "measure (\<lambda>n. n)") auto

declare excessBits.simps [simp del]

definition denormBits :: nat where
  "denormBits = 1074"

definition toDouble :: "real \<Rightarrow> number" where
  "toDouble x =
     (let y = \<bar>x\<bar> * 2 ^ denormBits;
          s = excessBits (nat \<lfloor>y\<rfloor>);
          q = \<lfloor>y / 2 ^ s\<rfloor>;
          rem = y - of_int q * 2 ^ s;
          q' = (if 2 ^ s < 2 * rem \<or> (2 * rem = 2 ^ s \<and> odd q) then q + 1 else q);
          r = of_int q' * 2 ^ s
      in if 2 ^ (1024 + denormBits) \<le> r then (if x < 0 then NegInfinity else Infinity)
         else Num ((if x < 0 then - r else r) / 2 ^ denormBits))"

text \<open>The operators \<open>+\<close> and \<open><\<close> on numbers.\<close>

fun num_add :: "number \<Rightarrow> number \<Rightarrow> number" where
  "num_add (Num a) (Num b) = toDouble (a + b)"
| "num_add NaN _ = NaN"
| "num_add _ NaN = NaN"
| "num_add Infinity NegInfinity = NaN"
| "num_add NegInfinity Infinity = NaN"
| "num_add Infinity _ = Infinity"
| "num_add _ Infinity = Infinity"
| "num_add NegInfinity _ = NegInfinity"
| "num_add _ NegInfinity = NegInfinity"

fun num_less :: "number \<Rightarrow> number \<Rightarrow> bool" where
  "num_less (Num a) (Num b) = (a < b)"
| "num_less NaN _ = False"
| "num_less _ NaN = False"
| "num_less Infinity _ = False"
| "num_less _ Infinity = True"
| "num_less _ NegInfinity = False"
| "num_less NegInfinity _ = True"

text \<open>
  A worker's status report. A field holds the number written in the response body;
  \<open>JSON.parse\<close> rounds it to a double, which \<open>business\<close> below does when it reads the
  field.
\<close>

record status =
  clientCount :: real
  httpRPM :: real
  ioRPM :: real

text \<open>The only fault the modelled code can raise: reading \<open>.port\<close> of \<open>undefined\<close>.\<close>

datatype js_error = TypeError

text \<open>An error object handed to the error domain; \<open>message\<close> may be missing.\<close>

record fault =
  message :: "string option"

text \<open>
  One run of \<open>_updateStatus\<close>: the closure variables \<open>statusesRead\<close> and
  \<open>workerCount\<close>, and the ports of the status requests of this run that are still
  in flight.
\<close>

record poll =
  statusesRead :: nat
  workerCount :: nat
  pending :: "int list"

text \<open>
  The balancer object. \<open>workerStatuses\<close> is a JavaScript object whose property order
  matters to \<open>for ... in\<close>, so it is an association list in iteration order; a slot
  holding \<open>null\<close> is \<open>None\<close>. \<open>intervals\<close> lists the delays of the periodic timers
  created by \<open>setInterval\<close> and \<open>emitted\<close> the \<open>'error'\<close> events emitted so far.
\<close>

record balancer =
  workers :: "worker list"
  destPorts :: "int \<rightharpoonup> nat"
  workerStatuses :: "(int \<times> status option) list"
  leastBusyPort :: "int option"
  statusCheckInterval :: nat
  intervals :: "nat list"
  polls :: "poll list"
  emitted :: "fault list"

section \<open>The error domain\<close>

text \<open>
  \<open>!err.message\<close> holds when the message is missing or the empty string.
\<close>

definition errorDomain :: "fault \<Rightarrow> balancer \<Rightarrow> balancer" where
  "errorDomain err st =
     (if (message err = None \<or> message err = Some [])
         \<or> (message err \<noteq> Some ''read ECONNRESET'' \<and> message err \<noteq> Some ''socket hang up'')
      then st\<lparr>emitted := emitted st @ [err]\<rparr>
      else st)"

section \<open>Worker pool and random choice\<close>

text \<open>
  \<open>setWorkers\<close> rebuilds \<open>destPorts\<close>, stores the list and creates one more periodic
  timer; it cancels nothing.
\<close>

definition setWorkers :: "worker list \<Rightarrow> balancer \<Rightarrow> balancer" where
  "setWorkers ws st =
     st\<lparr>destPorts := fold (\<lambda>w m. m(port w \<mapsto> 1)) ws Map.empty,
        workers := ws,
        intervals := intervals st @ [statusCheckInterval st]\<rparr>"

text \<open>
  \<open>_randomPort\<close>: the argument \<open>u\<close> is the value \<open>Math.random()\<close> returns, a number
  with \<open>0 \<le> u < 1\<close>. Reading past the end of the array gives \<open>undefined\<close>, whose
  \<open>.port\<close> raises.
\<close>

definition randomPort :: "real \<Rightarrow> balancer \<Rightarrow> js_error + int" where
  "randomPort u st =
     (let rand = \<lfloor>u * real (length (workers st))\<rfloor>
      in if 0 \<le> rand \<and> rand < int (length (workers st))
         then Inr (port (workers st ! nat rand))
         else Inl TypeError)"

section \<open>Least-busy aggregation\<close>

definition business :: "status option \<Rightarrow> number" where
  "business s =
     (let (clientCount', httpRPM', ioRPM') =
            (case s of
               Some v \<Rightarrow> (toDouble (clientCount v), toDouble (httpRPM v), toDouble (ioRPM v))
             | None \<Rightarrow> (Infinity, Infinity, Infinity))
      in num_add (num_add httpRPM' ioRPM') clientCount')"

text \<open>
  The \<open>for (var i in this.workerStatuses)\<close> loop, carrying \<open>minBusiness\<close> and the local
  \<open>leastBusyPort\<close> (initially \<open>undefined\<close>). The key \<open>i\<close> is the decimal string of a
  port and \<open>parseInt(i)\<close> gives the port back, so the slots are keyed by the port itself.
\<close>

fun leastBusyLoop ::
  "(int \<times> status option) list \<Rightarrow> number \<times> int option \<Rightarrow> number \<times> int option" where
  "leastBusyLoop [] acc = acc"
| "leastBusyLoop ((i, s) # rest) (minBusiness, leastBusy) =
     (if num_less (business s) minBusiness
      then leastBusyLoop rest (business s, Some i)
      else leastBusyLoop rest (minBusiness, leastBusy))"

definition calculateLeastBusyPort :: "real \<Rightarrow> balancer \<Rightarrow> js_error + balancer" where
  "calculateLeastBusyPort u st =
     (let (minBusiness, leastBusy) = leastBusyLoop (workerStatuses st) (Infinity, None)
      in if minBusiness = Infinity
         then (case randomPort u st of
                 Inl e \<Rightarrow> Inl e
               | Inr p \<Rightarrow> Inr (st\<lparr>leastBusyPort := Some p\<rparr>))
         else Inr (st\<lparr>leastBusyPort := leastBusy\<rparr>))"

section \<open>Health polling\<close>

text \<open>
  The assignment \<open>self.workerStatuses[worker.port] = v\<close>. A JavaScript object lists
  its array-index keys (integers from 0 below \<open>2^32 - 1\<close>) first, in ascending order,
  and its other keys after them in the order of their creation; an existing key keeps
  its place.
\<close>

definition isIndex :: "int \<Rightarrow> bool" where
  "isIndex p = (0 \<le> p \<and> p < 4294967295)"

fun putStatus ::
  "int \<Rightarrow> status option \<Rightarrow> (int \<times> status option) list \<Rightarrow> (int \<times> status option) list" where
  "putStatus p v [] = [(p, v)]"
| "putStatus p v ((q, w) # rest) =
     (if p = q then (q, v) # rest
      else if isIndex p \<and> (\<not> isIndex q \<or> p < q) then (p, v) # (q, w) # rest
      else (q, w) # putStatus p v rest)"

text \<open>
  \<open>_updateStatus\<close>, run by a periodic timer: a new closure with \<open>statusesRead = 0\<close>,
  \<open>workerCount = this.workers.length\<close> and one status request per worker.
\<close>

definition updateStatus :: "balancer \<Rightarrow> balancer" where
  "updateStatus st =
     st\<lparr>polls := polls st @
        [\<lparr>statusesRead = 0, workerCount = length (workers st),
          pending = map port (workers st)\<rparr>]\<rparr>"

text \<open>
  The body a status response ends with: empty, not parsable by \<open>JSON.parse\<close>, or a
  status object.
\<close>

datatype body = EmptyBody | NotJSON | JSON status

definition parsedStatus :: "body \<Rightarrow> status option" where
  "parsedStatus b = (case b of EmptyBody \<Rightarrow> None | NotJSON \<Rightarrow> None | JSON s \<Rightarrow> Some s)"

text \<open>
  The fault object of a \<open>TypeError\<close> thrown inside the domain. Its message text
  depends on the engine; it is neither of the two messages the domain swallows.
\<close>

definition thrown :: "js_error \<Rightarrow> fault" where
  "thrown e = \<lparr>message = Some ''Cannot read properties of undefined''\<rparr>"

text \<open>
  The \<open>'end'\<close> handler of the response to the request that run \<open>c\<close> of
  \<open>_updateStatus\<close> sent to port \<open>p\<close>; \<open>u\<close> is the value \<open>Math.random()\<close> would
  return if the aggregation asks for it. A fault thrown by the aggregation reaches the
  error domain.
\<close>

definition responseEnd :: "nat \<Rightarrow> int \<Rightarrow> body \<Rightarrow> real \<Rightarrow> balancer \<Rightarrow> balancer" where
  "responseEnd c p b u st =
     (if c < length (polls st) \<and> p \<in> set (pending (polls st ! c))
      then
        (let pl = polls st ! c;
             st1 = st\<lparr>workerStatuses := putStatus p (parsedStatus b) (workerStatuses st)\<rparr>;
             pl' = pl\<lparr>statusesRead := statusesRead pl + 1, pending := remove1 p (pending pl)\<rparr>;
             st2 = st1\<lparr>polls := (polls st1)[c := pl']\<rparr>
         in if workerCount pl' \<le> statusesRead pl'
            then (case calculateLeastBusyPort u st2 of
                    Inr st3 \<Rightarrow> st3
                  | Inl e \<Rightarrow> errorDomain (thrown e) st2)
            else st2)
      else st)"

text \<open>
  The socket's \<open>'timeout'\<close> handler, for a request whose response has not arrived:
  \<open>req.abort()\<close>. The request is gone and the response callback never runs; the abort
  surfaces in the domain as a \<open>socket hang up\<close> error.
\<close>

definition socketTimeout :: "nat \<Rightarrow> int \<Rightarrow> balancer \<Rightarrow> balancer" where
  "socketTimeout c p st =
     (if c < length (polls st) \<and> p \<in> set (pending (polls st ! c))
      then
        (let pl = polls st ! c;
             st1 = st\<lparr>polls := (polls st)[c := pl\<lparr>pending := remove1 p (pending pl)\<rparr>]\<rparr>
         in errorDomain \<lparr>message = Some ''socket hang up''\<rparr> st1)
      else st)"

section \<open>Session destination decoder\<close>

text \<open>
  Strings are sequences of 8-bit characters, as Node delivers header and URL bytes.
\<close>

definition isAlnum :: "char \<Rightarrow> bool" where
  "isAlnum c =
     (let n = (of_char c :: nat)
      in (65 \<le> n \<and> n \<le> 90) \<or> (97 \<le> n \<and> n \<le> 122) \<or> (48 \<le> n \<and> n \<le> 57))"

fun dropPrefix :: "string \<Rightarrow> string \<Rightarrow> string option" where
  "dropPrefix [] s = Some s"
| "dropPrefix (p # ps) [] = None"
| "dropPrefix (p # ps) (c # cs) = (if p = c then dropPrefix ps cs else None)"

text \<open>
  \<open>_sidRegex = /([^A-Za-z0-9]|^)s?sid=([^;]*)/\<close>. \<open>sidTail\<close> matches
  \<open>s?sid=([^;]*)\<close> at the head of its input (the optional \<open>s\<close> is tried first) and
  returns the second group; \<open>sidAt\<close> matches the whole expression at one position,
  the first alternative of the first group before the second; \<open>sidRegex\<close> is
  \<open>String.prototype.match\<close>: the match at the leftmost position.
\<close>

definition sidTail :: "string \<Rightarrow> string option" where
  "sidTail s =
     (case dropPrefix ''ssid='' s of
        Some r \<Rightarrow> Some (takeWhile (\<lambda>c. c \<noteq> CHR '';'') r)
      | None \<Rightarrow>
          (case dropPrefix ''sid='' s of
             Some r \<Rightarrow> Some (takeWhile (\<lambda>c. c \<noteq> CHR '';'') r)
           | None \<Rightarrow> None))"

definition sidAt :: "bool \<Rightarrow> string \<Rightarrow> string option" where
  "sidAt atStart s =
     (case (case s of [] \<Rightarrow> None | c # r \<Rightarrow> if isAlnum c then None else sidTail r) of
        Some v \<Rightarrow> Some v
      | None \<Rightarrow> if atStart then sidTail s else None)"

fun sidSearch :: "bool \<Rightarrow> string \<Rightarrow> string option" where
  "sidSearch atStart [] = sidAt atStart []"
| "sidSearch atStart (c # r) =
     (case sidAt atStart (c # r) of
        Some v \<Rightarrow> Some v
      | None \<Rightarrow> sidSearch False r)"

definition sidRegex :: "string \<Rightarrow> string option" where
  "sidRegex s = sidSearch True s"

text \<open>
  \<open>_destRegex = /^([^_]*)_([^_]*)_([^_]*)_/\<close>: the three groups of a match.
\<close>

definition segment :: "string \<Rightarrow> (string \<times> string) option" where
  "segment s =
     (case dropWhile (\<lambda>c. c \<noteq> CHR ''_'') s of
        [] \<Rightarrow> None
      | _ # r \<Rightarrow> Some (takeWhile (\<lambda>c. c \<noteq> CHR ''_'') s, r))"

definition destRegex :: "string \<Rightarrow> (string \<times> string \<times> string) option" where
  "destRegex s =
     (case segment s of
        None \<Rightarrow> None
      | Some (g1, r1) \<Rightarrow>
          (case segment r1 of
             None \<Rightarrow> None
           | Some (g2, r2) \<Rightarrow>
               (case segment r2 of
                  None \<Rightarrow> None
                | Some (g3, r3) \<Rightarrow> Some (g1, g2, g3))))"

text \<open>
  \<open>parseInt(string)\<close> without a radix, as ECMAScript defines it: leading white space
  is dropped, then an optional sign, then \<open>0x\<close> or \<open>0X\<close> selects radix 16 (radix 10
  otherwise), and the longest run of digits of that radix is the value; no digit at
  all gives \<open>NaN\<close>. The result is the signed integer rounded to a double (the
  standard lets an engine approximate decimal strings of more than 20 digits; V8, the
  engine of Node, rounds the exact value).
\<close>

definition isWhiteSpace :: "char \<Rightarrow> bool" where
  "isWhiteSpace c =
     (let n = (of_char c :: nat)
      in n = 9 \<or> n = 10 \<or> n = 11 \<or> n = 12 \<or> n = 13 \<or> n = 32 \<or> n = 160)"

definition digitValue :: "char \<Rightarrow> nat option" where
  "digitValue c =
     (let n = (of_char c :: nat)
      in if 48 \<le> n \<and> n \<le> 57 then Some (n - 48)
         else if 97 \<le> n \<and> n \<le> 122 then Some (n - 87)
         else if 65 \<le> n \<and> n \<le> 90 then Some (n - 55)
         else None)"

definition isRadixDigit :: "nat \<Rightarrow> char \<Rightarrow> bool" where
  "isRadixDigit R c = (case digitValue c of Some d \<Rightarrow> d < R | None \<Rightarrow> False)"

definition digitsValue :: "nat \<Rightarrow> string \<Rightarrow> nat" where
  "digitsValue R Z =
     fold (\<lambda>c acc. acc * R + (case digitValue c of Some d \<Rightarrow> d | None \<Rightarrow> 0)) Z 0"

definition parseInt :: "string \<Rightarrow> number" where
  "parseInt str =
     (let S = dropWhile isWhiteSpace str;
          sign = (case S of c # _ \<Rightarrow> if c = CHR ''-'' then - 1 else 1 | [] \<Rightarrow> (1::int));
          S1 = (case S of c # r \<Rightarrow> if c = CHR ''+'' \<or> c = CHR ''-'' then r else S | [] \<Rightarrow> S);
          hex = (take 2 S1 = ''0x'' \<or> take 2 S1 = ''0X'');
          R = (if hex then 16 else 10);
          S2 = (if hex then drop 2 S1 else S1);
          Z = takeWhile (isRadixDigit R) S2
      in if Z = [] then NaN else toDouble (of_int (sign * int (digitsValue R Z))))"

text \<open>
  An incoming request, as far as \<open>_parseDest\<close> reads it: the \<open>headers\<close> object (lower-case
  header names to values) and \<open>url_query\<close>, the \<open>query\<close> component that Node's
  \<open>url.parse\<close> returns for \<open>req.url\<close> (\<open>null\<close> when there is none).
\<close>

record request =
  headers :: "(string \<rightharpoonup> string) option"
  url_query :: "string option"

text \<open>The value of \<open>this.leastBusyPort\<close> as a JavaScript value.\<close>

definition portValue :: "int option \<Rightarrow> number option" where
  "portValue p = (case p of None \<Rightarrow> None | Some q \<Rightarrow> Some (Num (of_int q)))"

text \<open>
  \<open>_parseDest\<close>. An empty string is falsy, so an empty \<open>Host\<close> header counts as
  missing; \<open>parseInt(...) || this.leastBusyPort\<close> takes the balancer's value when
  \<open>parseInt\<close> gives \<open>NaN\<close> or zero.
\<close>

definition parseDest :: "request \<Rightarrow> balancer \<Rightarrow> dest option" where
  "parseDest req st =
     (case headers req of
        None \<Rightarrow> None
      | Some h \<Rightarrow>
          if h ''host'' = None \<or> h ''host'' = Some [] then None
          else
            (let query = (case url_query req of None \<Rightarrow> [] | Some q \<Rightarrow> q);
                 cookie = (case h ''cookie'' of None \<Rightarrow> [] | Some c \<Rightarrow> c)
             in if query = [] \<and> cookie = [] then None
                else
                  (case (case sidRegex query of Some m \<Rightarrow> Some m | None \<Rightarrow> sidRegex cookie) of
                     None \<Rightarrow> None
                   | Some routString \<Rightarrow>
                       (case destRegex routString of
                          None \<Rightarrow> None
                        | Some (g1, g2, g3) \<Rightarrow>
                            Some \<lparr>host = ''localhost'',
                                  port = (if parseInt g2 = NaN \<or> parseInt g2 = Num 0
                                          then portValue (leastBusyPort st)
                                          else Some (parseInt g2))\<rparr>))))"

section \<open>Dispatch\<close>

text \<open>
  \<open>this.destPorts[dest.port] == null\<close>: the keys of \<open>destPorts\<close> are the workers'
  ports, so a value that is not a finite integer names no property.
\<close>

definition unknownPort :: "balancer \<Rightarrow> number option \<Rightarrow> bool" where
  "unknownPort st p =
     (case p of
        Some (Num r) \<Rightarrow> if of_int \<lfloor>r\<rfloor> = r then destPorts st \<lfloor>r\<rfloor> = None else True
      | _ \<Rightarrow> True)"

text \<open>
  \<open>_proxyHTTP\<close> and \<open>_proxyWebSocket\<close>, up to the call of the external forwarder: the
  result is the \<open>target\<close> handed to \<open>this._proxy.web\<close> or \<open>this._proxy.ws\<close>.
\<close>

definition proxyHTTP :: "real \<Rightarrow> request \<Rightarrow> balancer \<Rightarrow> js_error + dest" where
  "proxyHTTP u req st =
     (case parseDest req st of
        Some dest \<Rightarrow>
          if unknownPort st (port dest)
          then (case randomPort u st of
                  Inl e \<Rightarrow> Inl e
                | Inr p \<Rightarrow> Inr (dest\<lparr>port := Some (Num (of_int p))\<rparr>))
          else Inr dest
      | None \<Rightarrow> Inr \<lparr>host = ''localhost'', port = portValue (leastBusyPort st)\<rparr>)"

definition proxyWebSocket :: "real \<Rightarrow> request \<Rightarrow> balancer \<Rightarrow> js_error + dest" where
  "proxyWebSocket u req st =
     (case parseDest req st of
        Some dest \<Rightarrow>
          if unknownPort st (port dest)
          then (case randomPort u st of
                  Inl e \<Rightarrow> Inl e
                | Inr p \<Rightarrow> Inr (dest\<lparr>port := Some (Num (of_int p))\<rparr>))
          else Inr dest
      | None \<Rightarrow> Inr \<lparr>host = ''localhost'', port = portValue (leastBusyPort st)\<rparr>)"

section \<open>Construction and runs\<close>

text \<open>
  The constructor, as far as it touches the routing state: \<open>ws\<close> is \<open>options.workers\<close>,
  \<open>interval\<close> is \<open>options.statusCheckInterval\<close> (missing or zero gives 5000) and \<open>u\<close> the
  value of \<open>Math.random()\<close> for the initial \<open>leastBusyPort\<close>. A throw leaves no object.
\<close>

definition LoadBalancer :: "worker list \<Rightarrow> nat option \<Rightarrow> real \<Rightarrow> js_error + balancer" where
  "LoadBalancer ws interval u =
     (let st0 = \<lparr>workers = [], destPorts = Map.empty, workerStatuses = [],
                 leastBusyPort = None,
                 statusCheckInterval =
                   (case interval of None \<Rightarrow> 5000 | Some n \<Rightarrow> if n = 0 then 5000 else n),
                 intervals = [], polls = [], emitted = []\<rparr>;
          st1 = setWorkers ws st0;
          st2 = st1\<lparr>workerStatuses := []\<rparr>
      in case randomPort u st2 of
           Inl e \<Rightarrow> Inl e
         | Inr p \<Rightarrow> Inr (st2\<lparr>leastBusyPort := Some p\<rparr>))"

text \<open>
  What can happen to a constructed balancer, one event-loop turn at a time: timer
  \<open>k\<close> fires, a status response ends, a status request times out, the pool is
  reconfigured, a plain or an upgrade request is dispatched (a throw reaches the error
  domain), or some other fault reaches the error domain.
\<close>

datatype event =
    Tick nat
  | ResponseEnd nat int body real
  | SocketTimeout nat int
  | SetWorkers "worker list"
  | Request request real
  | Upgrade request real
  | Faulted fault

fun step :: "event \<Rightarrow> balancer \<Rightarrow> balancer" where
  "step (Tick k) st = (if k < length (intervals st) then updateStatus st else st)"
| "step (ResponseEnd c p b u) st = responseEnd c p b u st"
| "step (SocketTimeout c p) st = socketTimeout c p st"
| "step (SetWorkers ws) st = setWorkers ws st"
| "step (Request req u) st =
     (case proxyHTTP u req st of Inl e \<Rightarrow> errorDomain (thrown e) st | Inr d \<Rightarrow> st)"
| "step (Upgrade req u) st =
     (case proxyWebSocket u req st of Inl e \<Rightarrow> errorDomain (thrown e) st | Inr d \<Rightarrow> st)"
| "step (Faulted err) st = errorDomain err st"

definition run :: "event list \<Rightarrow> balancer \<Rightarrow> balancer" where
  "run evs st = fold step evs st"

text \<open>The ports of every worker list configured at construction or along a run.\<close>

fun configured :: "worker list \<Rightarrow> event list \<Rightarrow> int set" where
  "configured ws [] = port ` set ws"
| "configured ws (SetWorkers ws' # evs) = port ` set ws \<union> configured ws' evs"
| "configured ws (_ # evs) = configured ws evs"

section \<open>The routing invariant\<close>

text \<open>
  The routing invariant relative to a set \<open>C\<close> of ports: \<open>leastBusyPort\<close> is defined and
  in \<open>C\<close>, and so are the keys of the status slots, the ports of the requests in flight
  and the ports of the current pool.
\<close>

definition routed :: "int set \<Rightarrow> balancer \<Rightarrow> bool" where
  "routed C st =
     ((\<exists>p \<in> C. leastBusyPort st = Some p)
      \<and> fst ` set (workerStatuses st) \<subseteq> C
      \<and> (\<forall>pl \<in> set (polls st). set (pending pl) \<subseteq> C)
      \<and> port ` set (workers st) \<subseteq> C)"

section \<open>Example inputs\<close>

text \<open>
  A pool of two workers and the balancer the constructor builds for it when the first
  draw of \<open>Math.random()\<close> is 0.
\<close>

definition examplePool :: "worker list" where
  "examplePool = [\<lparr>host = ''localhost'', port = 8081\<rparr>, \<lparr>host = ''localhost'', port = 8082\<rparr>]"

definition exampleBalancer :: balancer where
  "exampleBalancer =
     \<lparr>workers = examplePool, destPorts = [8081 \<mapsto> 1, 8082 \<mapsto> 1], workerStatuses = [],
      leastBusyPort = Some 8081, statusCheckInterval = 5000, intervals = [5000],
      polls = [], emitted = []\<rparr>"

definition exampleStatuses :: "(int \<times> status option) list" where
  "exampleStatuses =
     [(8081, None),
      (8082, Some \<lparr>clientCount = 1, httpRPM = 2, ioRPM = 3\<rparr>),
      (8083, Some \<lparr>clientCount = 0, httpRPM = 0, ioRPM = 0\<rparr>)]"

definition nextPool :: "worker list" where
  "nextPool = [\<lparr>host = ''localhost'', port = 9000\<rparr>]"

text \<open>A request with a \<open>Host\<close> header and the given query and cookie.\<close>

definition exampleRequest :: "string option \<Rightarrow> string option \<Rightarrow> request" where
  "exampleRequest q c =
     \<lparr>headers = Some (\<lambda>name. if name = ''host'' then Some ''example.org''
                            else if name = ''cookie'' then c else None),
      url_query = q\<rparr>"

text \<open>A polling run in which both workers answer, 8082 as the idle one.\<close>

definition examplePolling :: "event list" where
  "examplePolling =
     [Tick 0,
      ResponseEnd 0 8081 (JSON \<lparr>clientCount = 5, httpRPM = 5, ioRPM = 5\<rparr>) 0,
      ResponseEnd 0 8082 (JSON \<lparr>clientCount = 0, httpRPM = 0, ioRPM = 0\<rparr>) 0]"

text \<open>
  Two polling runs. In the first both workers answer, 8081 as the idle one. In the
  second, 8082 answers and the request to 8081 either times out (\<open>timeoutRun\<close>) or ends
  with an empty body (\<open>emptyBodyRun\<close>).
\<close>

definition firstPolling :: "event list" where
  "firstPolling =
     [Tick 0,
      ResponseEnd 0 8081 (JSON \<lparr>clientCount = 0, httpRPM = 0, ioRPM = 0\<rparr>) 0,
      ResponseEnd 0 8082 (JSON \<lparr>clientCount = 5, httpRPM = 5, ioRPM = 5\<rparr>) 0]"

definition timeoutRun :: "event list" where
  "timeoutRun =
     firstPolling @
     [Tick 0,
      SocketTimeout 1 8081,
      ResponseEnd 1 8082 (JSON \<lparr>clientCount = 1, httpRPM = 1, ioRPM = 1\<rparr>) 0]"

definition emptyBodyRun :: "event list" where
  "emptyBodyRun =
     firstPolling @
     [Tick 0,
      ResponseEnd 1 8081 EmptyBody 0,
      ResponseEnd 1 8082 (JSON \<lparr>clientCount = 1, httpRPM = 1, ioRPM = 1\<rparr>) 0]"


section \<open>The example balancer\<close>

lemma exampleBalancer_constructed: "LoadBalancer examplePool None 0 = Inr exampleBalancer"
  by (simp add: LoadBalancer_def setWorkers_def randomPort_def examplePool_def exampleBalancer_def)

section \<open>Rounding to a double\<close>

lemma excessBits_le: "n < 2 ^ (53 + k) \<Longrightarrow> excessBits n \<le> k"
proof (induction k arbitrary: n)
  case 0
  then show ?case by (simp add: excessBits.simps)
next
  case (Suc k)
  show ?case
  proof (cases "n < 2 ^ 53")
    case True
    then show ?thesis by (simp add: excessBits.simps)
  next
    case False
    have "(2::nat) ^ (53 + Suc k) = 2 * 2 ^ (53 + k)" by (simp only: add_Suc_right power_Suc)
    with Suc.prems have "n < 2 * 2 ^ (53 + k)" by simp
    then have "n div 2 < 2 ^ (53 + k)" by linarith
    from Suc.IH[OF this] False show ?thesis by (subst excessBits.simps) simp
  qed
qed

lemma toDouble_int:
  assumes "\<bar>n\<bar> < 2 ^ 53"
  shows "toDouble (of_int n) = Num (of_int n)"
proof -
  define d where "d = denormBits"
  let ?m = "nat \<bar>n\<bar>"
  let ?y = "\<bar>of_int n :: real\<bar> * 2 ^ d"
  have y: "?y = of_nat (?m * 2 ^ d)" by simp
  have fl: "nat \<lfloor>?y\<rfloor> = ?m * 2 ^ d" unfolding y by (simp only: floor_of_nat nat_int)
  have m: "?m < 2 ^ 53" using assms by (simp add: nat_less_iff)
  then have "?m * 2 ^ d < 2 ^ 53 * 2 ^ d" by simp
  then have "?m * 2 ^ d < 2 ^ (53 + d)" by (simp only: power_add)
  then have sle: "excessBits (?m * 2 ^ d) \<le> d" by (rule excessBits_le)
  define s where "s = excessBits (?m * 2 ^ d)"
  from sle have s: "s \<le> d" by (simp add: s_def)
  then have p: "(2::real) ^ d = 2 ^ (d - s) * 2 ^ s"
    by (simp add: power_add[symmetric])
  have yq: "?y / 2 ^ s = of_int (\<bar>n\<bar> * 2 ^ (d - s))"
    by (simp add: p)
  have q: "\<lfloor>?y / 2 ^ s\<rfloor> = \<bar>n\<bar> * 2 ^ (d - s)" unfolding yq by (rule floor_of_int)
  have r: "of_int (\<bar>n\<bar> * 2 ^ (d - s)) * (2::real) ^ s = ?y"
    by (simp add: p)
  have "\<bar>of_int n :: real\<bar> < 2 ^ 53" using assms by (metis of_int_abs of_int_less_numeral_power_cancel_iff)
  then have "?y < 2 ^ 53 * 2 ^ d" by simp
  also have "\<dots> \<le> (2::real) ^ (1024 + d)" by (simp add: power_add)
  finally have small: "\<not> (2::real) ^ (1024 + d) \<le> ?y" by simp
  have sg: "(if (of_int n :: real) < 0 then - ?y else ?y) / 2 ^ d = of_int n"
    by simp
  have rem0: "?y - of_int (\<bar>n\<bar> * 2 ^ (d - s)) * 2 ^ s = 0" by (simp only: r diff_self)
  have c: "((2::real) ^ s < 2 * 0 \<or> (2 * 0 = (2::real) ^ s \<and> odd (\<bar>n\<bar> * 2 ^ (d - s)))) = False"
    by simp
  show ?thesis
    unfolding toDouble_def Let_def d_def[symmetric] fl s_def[symmetric] q rem0
    by (simp only: c if_False r small sg)
qed


lemma toDouble_numeral:
  "(numeral k :: int) < 2 ^ 53 \<Longrightarrow> toDouble (numeral k) = Num (numeral k)"
  using toDouble_int[of "numeral k"] by simp

lemma toDouble_zero: "toDouble 0 = Num 0"
  using toDouble_int[of 0] by simp

lemma toDouble_one: "toDouble 1 = Num 1"
  using toDouble_int[of 1] by simp

lemma toDouble_not_NaN: "toDouble x \<noteq> NaN"
  by (simp add: toDouble_def Let_def)

section \<open>Arithmetic of business scores\<close>

lemma num_less_irrefl: "\<not> num_less a a"
  by (cases a) auto

lemma num_less_trans: "num_less a b \<Longrightarrow> num_less b c \<Longrightarrow> num_less a c"
  by (cases a; cases b; cases c) auto

lemma num_less_asym: "num_less a b \<Longrightarrow> \<not> num_less b a"
  by (cases a; cases b) auto

lemma num_less_total: "a \<noteq> NaN \<Longrightarrow> b \<noteq> NaN \<Longrightarrow> \<not> num_less a b \<Longrightarrow> \<not> num_less b a \<Longrightarrow> a = b"
  by (cases a; cases b) auto

lemma num_less_Infinity: "num_less a Infinity \<longleftrightarrow> a \<noteq> Infinity \<and> a \<noteq> NaN"
  by (cases a) auto

lemma num_less_not_NaN: "num_less a b \<Longrightarrow> a \<noteq> NaN \<and> b \<noteq> NaN"
  by (cases a; cases b) auto

lemma business_Some:
  "business (Some v) =
     num_add (num_add (toDouble (httpRPM v)) (toDouble (ioRPM v))) (toDouble (clientCount v))"
  by (simp add: business_def)



lemma excessBits_ge: "0 < excessBits n \<Longrightarrow> 2 ^ 52 \<le> n div 2 ^ excessBits n"
proof (induction n rule: excessBits.induct)
  case (1 n)
  show ?case
  proof (cases "n < 2 ^ 53")
    case True
    with "1.prems" show ?thesis by (simp add: excessBits.simps)
  next
    case False
    then have e: "excessBits n = Suc (excessBits (n div 2))" by (subst excessBits.simps) simp
    have d: "n div 2 ^ Suc (excessBits (n div 2)) = (n div 2) div 2 ^ excessBits (n div 2)"
      by (simp add: div_mult2_eq)
    show ?thesis
    proof (cases "0 < excessBits (n div 2)")
      case True
      from "1.IH"[OF False True] show ?thesis unfolding e d .
    next
      case z: False
      then have z0: "excessBits (n div 2) = 0" by simp
      from False have "2 ^ 52 \<le> n div 2" by simp
      then show ?thesis unfolding e z0 by simp
    qed
  qed
qed

lemma toDouble_overflow:
  assumes "2 ^ 1024 \<le> \<bar>x\<bar>"
  shows "toDouble x = (if x < 0 then NegInfinity else Infinity)"
proof -
  define d where "d = denormBits"
  define y where "y = \<bar>x\<bar> * 2 ^ d"
  define s where "s = excessBits (nat \<lfloor>y\<rfloor>)"
  define q where "q = \<lfloor>y / 2 ^ s\<rfloor>"
  define q' where "q' = (if 2 ^ s < 2 * (y - of_int q * 2 ^ s)
      \<or> (2 * (y - of_int q * 2 ^ s) = 2 ^ s \<and> odd q) then q + 1 else q)"
  have T: "(2::real) ^ (1024 + d) \<le> y"
    unfolding y_def power_add using assms by simp
  have y0: "0 \<le> y" unfolding y_def by simp
  have qq: "q = \<lfloor>y\<rfloor> div 2 ^ s"
    unfolding q_def using floor_divide_real_eq_div[of "2 ^ s" y] by simp
  have big: "(2::real) ^ (1024 + d) \<le> of_int q * 2 ^ s"
  proof (cases "s \<le> 1024 + d")
    case True
    then have p: "(2::real) ^ (1024 + d) = 2 ^ (1024 + d - s) * 2 ^ s"
      by (simp add: power_add[symmetric])
    from T have "(2::real) ^ (1024 + d - s) \<le> y / 2 ^ s"
      unfolding p by (simp add: field_simps)
    then have "of_int (2 ^ (1024 + d - s)) \<le> y / 2 ^ s" by simp
    then have "2 ^ (1024 + d - s) \<le> q" unfolding q_def by (simp only: le_floor_iff)
    then have "(of_int (2 ^ (1024 + d - s)) :: real) \<le> of_int q" by (simp only: of_int_le_iff)
    then have "(2::real) ^ (1024 + d - s) * 2 ^ s \<le> of_int q * 2 ^ s" by simp
    then show ?thesis unfolding p .
  next
    case False
    then have s0: "0 < s" and sl: "1024 + d \<le> s" by simp_all
    from excessBits_ge[of "nat \<lfloor>y\<rfloor>"] s0
    have "2 ^ 52 \<le> nat \<lfloor>y\<rfloor> div 2 ^ s" unfolding s_def by simp
    then have "int (2 ^ 52) \<le> int (nat \<lfloor>y\<rfloor> div 2 ^ s)" by (simp only: of_nat_le_iff)
    also have "int (nat \<lfloor>y\<rfloor> div 2 ^ s) = q"
      unfolding qq using y0 by (simp add: zdiv_int)
    finally have "1 \<le> q" by simp
    then have "(1::real) \<le> of_int q" by simp
    then have "(2::real) ^ s \<le> of_int q * 2 ^ s" by simp
    moreover have "(2::real) ^ (1024 + d) \<le> 2 ^ s" using sl by simp
    ultimately show ?thesis by linarith
  qed
  have "q \<le> q'" unfolding q'_def by simp
  then have "(of_int q :: real) * 2 ^ s \<le> of_int q' * 2 ^ s" by simp
  with big have "(2::real) ^ (1024 + d) \<le> of_int q' * 2 ^ s" by linarith
  then show ?thesis
    unfolding toDouble_def Let_def d_def[symmetric] y_def[symmetric] s_def[symmetric]
      q_def[symmetric] q'_def[symmetric]
    by (simp only: if_True)
qed

lemma num_less_step: "num_less a m \<Longrightarrow> \<not> num_less b m \<Longrightarrow> num_less a b \<or> b = NaN"
  by (cases a; cases b; cases m) auto

section \<open>The aggregation loop\<close>

lemma leastBusyLoop_unchanged:
  "\<forall>e \<in> set xs. \<not> num_less (business (snd e)) m \<Longrightarrow> leastBusyLoop xs (m, l) = (m, l)"
  by (induction xs) auto

lemma leastBusyLoop_first_min:
  assumes "\<exists>e \<in> set xs. num_less (business (snd e)) m"
  shows "\<exists>pre p s post. xs = pre @ (p, s) # post
           \<and> leastBusyLoop xs (m, l) = (business s, Some p)
           \<and> num_less (business s) m
           \<and> (\<forall>e \<in> set pre. num_less (business s) (business (snd e)) \<or> business (snd e) = NaN)
           \<and> (\<forall>e \<in> set xs. \<not> num_less (business (snd e)) (business s))"
  using assms
proof (induction xs arbitrary: m l)
  case Nil
  then show ?case by simp
next
  case (Cons x xs)
  obtain q t where x: "x = (q, t)" by (cases x)
  show ?case
  proof (cases "num_less (business t) m")
    case True
    show ?thesis
    proof (cases "\<exists>e \<in> set xs. num_less (business (snd e)) (business t)")
      case False
      then have "leastBusyLoop xs (business t, Some q) = (business t, Some q)"
        by (simp add: leastBusyLoop_unchanged)
      then have "x # xs = [] @ (q, t) # xs
           \<and> leastBusyLoop (x # xs) (m, l) = (business t, Some q)
           \<and> num_less (business t) m
           \<and> (\<forall>e \<in> set []. num_less (business t) (business (snd e)) \<or> business (snd e) = NaN)
           \<and> (\<forall>e \<in> set (x # xs). \<not> num_less (business (snd e)) (business t))"
        using True False x by (auto simp: num_less_irrefl)
      then show ?thesis by blast
    next
      case ex: True
      from Cons.IH[OF ex, of "Some q"] obtain pre p s post where
        h: "xs = pre @ (p, s) # post"
           "leastBusyLoop xs (business t, Some q) = (business s, Some p)"
           "num_less (business s) (business t)"
           "\<forall>e \<in> set pre. num_less (business s) (business (snd e)) \<or> business (snd e) = NaN"
           "\<forall>e \<in> set xs. \<not> num_less (business (snd e)) (business s)"
        by blast
      have "x # xs = (x # pre) @ (p, s) # post
           \<and> leastBusyLoop (x # xs) (m, l) = (business s, Some p)
           \<and> num_less (business s) m
           \<and> (\<forall>e \<in> set (x # pre). num_less (business s) (business (snd e)) \<or> business (snd e) = NaN)
           \<and> (\<forall>e \<in> set (x # xs). \<not> num_less (business (snd e)) (business s))"
        using h True x by (auto intro: num_less_trans dest: num_less_asym)
      then show ?thesis by blast
    qed
  next
    case False
    with Cons.prems x have ex: "\<exists>e \<in> set xs. num_less (business (snd e)) m" by auto
    from Cons.IH[OF ex, of l] obtain pre p s post where
      h: "xs = pre @ (p, s) # post"
         "leastBusyLoop xs (m, l) = (business s, Some p)"
         "num_less (business s) m"
         "\<forall>e \<in> set pre. num_less (business s) (business (snd e)) \<or> business (snd e) = NaN"
         "\<forall>e \<in> set xs. \<not> num_less (business (snd e)) (business s)"
      by blast
    have a: "num_less (business s) (business t) \<or> business t = NaN"
      using False h(3) by (rule num_less_step[rotated])
    then have b: "\<not> num_less (business t) (business s)"
      by (auto dest: num_less_asym)
    have "x # xs = (x # pre) @ (p, s) # post
           \<and> leastBusyLoop (x # xs) (m, l) = (business s, Some p)
           \<and> num_less (business s) m
           \<and> (\<forall>e \<in> set (x # pre). num_less (business s) (business (snd e)) \<or> business (snd e) = NaN)
           \<and> (\<forall>e \<in> set (x # xs). \<not> num_less (business (snd e)) (business s))"
      using h False x a b by auto
    then show ?thesis by blast
  qed
qed

lemmas dbl_eval = toDouble_numeral toDouble_zero toDouble_one

section \<open>The random draw\<close>

text \<open>
  With a non-empty pool of \<open>n\<close> workers and \<open>0 \<le> u < 1\<close> the index is in bounds, and
  worker \<open>k\<close> is drawn exactly on the interval \<open>k \<le> u * n < k + 1\<close>: every worker has
  an interval of the same length.
\<close>

lemma randomPort_draw:
  assumes "workers st \<noteq> []" and "0 \<le> u" and "u < 1"
  shows "\<exists>k < length (workers st).
           real k \<le> u * real (length (workers st))
           \<and> u * real (length (workers st)) < real k + 1
           \<and> randomPort u st = Inr (port (workers st ! k))"
proof -
  let ?n = "length (workers st)"
  let ?k = "nat \<lfloor>u * real ?n\<rfloor>"
  have n: "0 < real ?n" using assms(1) by simp
  have lo: "0 \<le> \<lfloor>u * real ?n\<rfloor>" using assms(2) by simp
  have "u * real ?n < real ?n" using assms(3) n by simp
  then have hi: "\<lfloor>u * real ?n\<rfloor> < int ?n" by (simp add: floor_less_iff)
  then have k: "?k < ?n" using lo by linarith
  have rk: "real ?k = of_int \<lfloor>u * real ?n\<rfloor>" using lo by simp
  have b1: "real ?k \<le> u * real ?n" unfolding rk by (rule of_int_floor_le)
  have b2: "u * real ?n < real ?k + 1" unfolding rk by linarith
  have "randomPort u st = Inr (port (workers st ! ?k))"
    using lo hi by (simp add: randomPort_def Let_def)
  with k b1 b2 show ?thesis by blast
qed

lemma randomPort_empty: "workers st = [] \<Longrightarrow> randomPort u st = Inl TypeError"
  by (simp add: randomPort_def)

lemma randomPort_member:
  assumes "randomPort u st = Inr p"
  shows "p \<in> port ` set (workers st)"
proof -
  let ?r = "\<lfloor>u * real (length (workers st))\<rfloor>"
  from assms have r: "0 \<le> ?r" "?r < int (length (workers st))"
    and p: "p = port (workers st ! nat ?r)"
    by (auto simp: randomPort_def Let_def split: if_splits)
  from r have "nat ?r < length (workers st)" by linarith
  then have "workers st ! nat ?r \<in> set (workers st)" by (rule nth_mem)
  with p show ?thesis by blast
qed

section \<open>Least-busy selection\<close>

lemma calculate_none_below:
  assumes "\<forall>e \<in> set (workerStatuses st). \<not> num_less (business (snd e)) Infinity"
  shows "calculateLeastBusyPort u st =
           (case randomPort u st of Inl e \<Rightarrow> Inl e | Inr p \<Rightarrow> Inr (st\<lparr>leastBusyPort := Some p\<rparr>))"
proof -
  from assms have "leastBusyLoop (workerStatuses st) (Infinity, None) = (Infinity, None)"
    by (rule leastBusyLoop_unchanged)
  then show ?thesis by (simp add: calculateLeastBusyPort_def)
qed

lemma calculate_some_below:
  assumes "\<exists>e \<in> set (workerStatuses st). num_less (business (snd e)) Infinity"
  shows "\<exists>pre p s post. workerStatuses st = pre @ (p, s) # post
           \<and> calculateLeastBusyPort u st = Inr (st\<lparr>leastBusyPort := Some p\<rparr>)
           \<and> num_less (business s) Infinity
           \<and> (\<forall>e \<in> set pre. num_less (business s) (business (snd e)) \<or> business (snd e) = NaN)
           \<and> (\<forall>e \<in> set (workerStatuses st). \<not> num_less (business (snd e)) (business s))"
proof -
  from leastBusyLoop_first_min[OF assms, of None] obtain pre p s post where
    h: "workerStatuses st = pre @ (p, s) # post"
       "leastBusyLoop (workerStatuses st) (Infinity, None) = (business s, Some p)"
       "num_less (business s) Infinity"
       "\<forall>e \<in> set pre. num_less (business s) (business (snd e)) \<or> business (snd e) = NaN"
       "\<forall>e \<in> set (workerStatuses st). \<not> num_less (business (snd e)) (business s)"
    by blast
  from h(3) have fin: "business s \<noteq> Infinity" by (simp add: num_less_Infinity)
  with h(2) have "calculateLeastBusyPort u st = Inr (st\<lparr>leastBusyPort := Some p\<rparr>)"
    by (simp add: calculateLeastBusyPort_def)
  with h show ?thesis by blast
qed





section \<open>Repeating the aggregation\<close>

lemma calculate_frame:
  assumes "calculateLeastBusyPort u st = Inr st'"
  shows "\<exists>p. st' = st\<lparr>leastBusyPort := p\<rparr>"
  using assms
  by (auto simp: calculateLeastBusyPort_def Let_def split: prod.splits if_splits sum.splits)





section \<open>The error domain's filter\<close>

text \<open>
  C9. The error domain emits the fault as one \<open>'error'\<close> event unless its message is
  exactly \<open>read ECONNRESET\<close> or \<open>socket hang up\<close>; those two are dropped and the
  balancer is left as it was. A fault with no message is emitted.
\<close>

theorem errorDomain_filter:
  "errorDomain err st =
     (if message err = Some ''read ECONNRESET'' \<or> message err = Some ''socket hang up''
      then st
      else st\<lparr>emitted := emitted st @ [err]\<rparr>)"
  by (simp add: errorDomain_def)

theorem errorDomain_filter_witness:
  "errorDomain \<lparr>message = Some ''socket hang up''\<rparr> exampleBalancer = exampleBalancer
   \<and> errorDomain \<lparr>message = Some ''read ECONNRESET''\<rparr> exampleBalancer = exampleBalancer
   \<and> emitted (errorDomain \<lparr>message = None\<rparr> exampleBalancer) = [\<lparr>message = None\<rparr>]
   \<and> emitted (errorDomain \<lparr>message = Some ''connect ECONNREFUSED''\<rparr> exampleBalancer)
       = [\<lparr>message = Some ''connect ECONNREFUSED''\<rparr>]"
  using errorDomain_filter[of "\<lparr>message = Some ''socket hang up''\<rparr>" exampleBalancer]
    errorDomain_filter[of "\<lparr>message = Some ''read ECONNRESET''\<rparr>" exampleBalancer]
    errorDomain_filter[of "\<lparr>message = None\<rparr>" exampleBalancer]
    errorDomain_filter[of "\<lparr>message = Some ''connect ECONNREFUSED''\<rparr>" exampleBalancer]
  by (simp add: exampleBalancer_def)

section \<open>Reconfiguring the pool\<close>

lemma dom_fold_ports:
  "dom (fold (\<lambda>w m. m(port w \<mapsto> v)) ws m0) = dom m0 \<union> port ` set ws"
  by (induction ws arbitrary: m0) auto

text \<open>
  C4, as the code has it. After \<open>setWorkers\<close> the keys of \<open>destPorts\<close> are exactly the
  ports of the new list and \<open>workers\<close> is the new list. One more periodic timer is
  created; every timer created before is still there and still starts a polling run
  when it fires.
\<close>

theorem setWorkers_effect:
  "dom (destPorts (setWorkers ws st)) = port ` set ws
   \<and> workers (setWorkers ws st) = ws
   \<and> intervals (setWorkers ws st) = intervals st @ [statusCheckInterval st]
   \<and> (\<forall>k < length (intervals st).
        step (Tick k) (setWorkers ws st) = updateStatus (setWorkers ws st))"
  by (simp add: setWorkers_def dom_fold_ports)

theorem setWorkers_effect_witness:
  "dom (destPorts (setWorkers nextPool exampleBalancer)) = {9000}
   \<and> intervals (setWorkers nextPool exampleBalancer) = [5000, 5000]
   \<and> polls (step (Tick 0) (setWorkers nextPool exampleBalancer))
       = [\<lparr>statusesRead = 0, workerCount = 1, pending = [9000]\<rparr>]"
proof -
  have k: "0 < length (intervals exampleBalancer)" by (simp add: exampleBalancer_def)
  from setWorkers_effect[of nextPool exampleBalancer] k
  have "dom (destPorts (setWorkers nextPool exampleBalancer)) = port ` set nextPool"
    and "intervals (setWorkers nextPool exampleBalancer)
           = intervals exampleBalancer @ [statusCheckInterval exampleBalancer]"
    and "workers (setWorkers nextPool exampleBalancer) = nextPool"
    and "step (Tick 0) (setWorkers nextPool exampleBalancer)
           = updateStatus (setWorkers nextPool exampleBalancer)"
    by blast+
  then show ?thesis
    by (simp add: nextPool_def exampleBalancer_def updateStatus_def setWorkers_def)
qed

text \<open>
  As the specification states it, the property fails: after reconfiguring a constructed
  balancer two periodic timers are active, and the one created by the constructor still
  starts polling runs.
\<close>

theorem setWorkers_timer_counterexample:
  "LoadBalancer examplePool None 0 = Inr exampleBalancer
   \<and> length (intervals exampleBalancer) = 1
   \<and> length (intervals (setWorkers nextPool exampleBalancer)) = 2
   \<and> step (Tick 0) (setWorkers nextPool exampleBalancer)
       = updateStatus (setWorkers nextPool exampleBalancer)"
  by (simp add: exampleBalancer_constructed) (simp add: exampleBalancer_def setWorkers_def)

section \<open>A non-empty pool\<close>

lemma calculate_never_faults:
  assumes "workers st \<noteq> []" and "0 \<le> u" and "u < 1"
  shows "\<exists>st'. calculateLeastBusyPort u st = Inr st'"
proof -
  from randomPort_draw[OF assms] obtain p where "randomPort u st = Inr p" by blast
  then show ?thesis
    by (auto simp: calculateLeastBusyPort_def Let_def split: prod.splits)
qed

text \<open>
  C10. With a non-empty worker list and \<open>0 \<le> Math.random() < 1\<close>, the index of
  \<open>_randomPort\<close> is in bounds and the result is the port of a configured worker, so
  the constructor, the aggregation and both dispatch functions return without a fault.
  With an empty list \<open>_randomPort\<close> raises a \<open>TypeError\<close>, and so does the constructor.
\<close>

theorem nonempty_pool_no_fault:
  "(workers st \<noteq> [] \<and> 0 \<le> u \<and> u < 1 \<longrightarrow>
      (\<exists>k < length (workers st). randomPort u st = Inr (port (workers st ! k)))
      \<and> (\<exists>st'. calculateLeastBusyPort u st = Inr st')
      \<and> (\<exists>d. proxyHTTP u req st = Inr d)
      \<and> (\<exists>d. proxyWebSocket u req st = Inr d))
   \<and> (ws \<noteq> [] \<and> 0 \<le> u \<and> u < 1 \<longrightarrow>
        (\<exists>b k. k < length ws \<and> LoadBalancer ws interval u = Inr b
           \<and> leastBusyPort b = Some (port (ws ! k))))
   \<and> (workers st = [] \<longrightarrow> randomPort u st = Inl TypeError)
   \<and> LoadBalancer [] interval u = Inl TypeError"
proof (intro conjI impI)
  assume a: "workers st \<noteq> [] \<and> 0 \<le> u \<and> u < 1"
  then obtain k where k: "k < length (workers st)" "randomPort u st = Inr (port (workers st ! k))"
    using randomPort_draw[of st u] by blast
  then show "\<exists>k < length (workers st). randomPort u st = Inr (port (workers st ! k))" by blast
  from a show "\<exists>st'. calculateLeastBusyPort u st = Inr st'"
    by (simp add: calculate_never_faults)
  from k(2) show "\<exists>d. proxyHTTP u req st = Inr d"
    by (simp add: proxyHTTP_def split: option.splits)
  from k(2) show "\<exists>d. proxyWebSocket u req st = Inr d"
    by (simp add: proxyWebSocket_def split: option.splits)
next
  assume a: "ws \<noteq> [] \<and> 0 \<le> u \<and> u < 1"
  let ?st0 = "\<lparr>workers = [], destPorts = Map.empty, workerStatuses = [],
                 leastBusyPort = None,
                 statusCheckInterval =
                   (case interval of None \<Rightarrow> 5000 | Some n \<Rightarrow> if n = 0 then 5000 else n),
                 intervals = [], polls = [], emitted = []\<rparr>"
  let ?st2 = "(setWorkers ws ?st0)\<lparr>workerStatuses := []\<rparr>"
  have w: "workers ?st2 = ws" by (simp add: setWorkers_def)
  with a obtain k where k: "k < length ws" "randomPort u ?st2 = Inr (port (ws ! k))"
    using randomPort_draw[of ?st2 u] by auto
  then have "LoadBalancer ws interval u = Inr (?st2\<lparr>leastBusyPort := Some (port (ws ! k))\<rparr>)"
    by (simp add: LoadBalancer_def)
  with k(1) show "\<exists>b k. k < length ws \<and> LoadBalancer ws interval u = Inr b
           \<and> leastBusyPort b = Some (port (ws ! k))"
    by force
next
  assume "workers st = []"
  then show "randomPort u st = Inl TypeError" by (rule randomPort_empty)
next
  show "LoadBalancer [] interval u = Inl TypeError"
    by (simp add: LoadBalancer_def setWorkers_def randomPort_def)
qed

theorem nonempty_pool_no_fault_witness:
  "randomPort (1/2) exampleBalancer = Inr 8082
   \<and> (\<exists>st'. calculateLeastBusyPort (1/2) exampleBalancer = Inr st')
   \<and> (\<exists>d. proxyHTTP (1/2) (exampleRequest (Some ''sid=a_9_b_'') None) exampleBalancer = Inr d)
   \<and> (\<exists>d. proxyWebSocket (1/2) (exampleRequest (Some ''sid=a_9_b_'') None) exampleBalancer = Inr d)
   \<and> (\<exists>b. LoadBalancer examplePool None (1/2) = Inr b)
   \<and> randomPort (1/2) (exampleBalancer\<lparr>workers := []\<rparr>) = Inl TypeError"
proof -
  have h: "workers exampleBalancer \<noteq> [] \<and> (0::real) \<le> 1/2 \<and> (1/2::real) < 1"
    by (simp add: exampleBalancer_def examplePool_def)
  have h2: "examplePool \<noteq> [] \<and> (0::real) \<le> 1/2 \<and> (1/2::real) < 1"
    by (simp add: examplePool_def)
  have h3: "workers (exampleBalancer\<lparr>workers := []\<rparr>) = []" by simp
  have r: "randomPort (1/2) exampleBalancer = Inr 8082"
    by (simp add: randomPort_def exampleBalancer_def examplePool_def)
  from nonempty_pool_no_fault[of exampleBalancer "1/2" "exampleRequest (Some ''sid=a_9_b_'') None" examplePool None] h h2
  have "(\<exists>st'. calculateLeastBusyPort (1/2) exampleBalancer = Inr st')"
    and "(\<exists>d. proxyHTTP (1/2) (exampleRequest (Some ''sid=a_9_b_'') None) exampleBalancer = Inr d)"
    and "(\<exists>d. proxyWebSocket (1/2) (exampleRequest (Some ''sid=a_9_b_'') None) exampleBalancer = Inr d)"
    and "(\<exists>b. LoadBalancer examplePool None (1/2) = Inr b)"
    by blast+
  moreover from nonempty_pool_no_fault[of "exampleBalancer\<lparr>workers := []\<rparr>" "1/2"] h3
  have "randomPort (1/2) (exampleBalancer\<lparr>workers := []\<rparr>) = Inl TypeError" by blast
  ultimately show ?thesis using r by blast
qed

section \<open>The decoder\<close>

lemma segment_append:
  assumes "CHR ''_'' \<notin> set g"
  shows "segment (g @ CHR ''_'' # r) = Some (g, r)"
proof -
  from assms have g: "\<And>x. x \<in> set g \<Longrightarrow> x \<noteq> CHR ''_''" by blast
  have "takeWhile (\<lambda>c. c \<noteq> CHR ''_'') (g @ CHR ''_'' # r) = g"
    using g by (simp add: takeWhile_append2)
  moreover have "dropWhile (\<lambda>c. c \<noteq> CHR ''_'') (g @ CHR ''_'' # r) = CHR ''_'' # r"
    using g by (simp add: dropWhile_append2)
  ultimately show ?thesis by (simp add: segment_def)
qed

lemma segment_Some:
  assumes "segment s = Some (g, r)"
  shows "s = g @ CHR ''_'' # r \<and> CHR ''_'' \<notin> set g"
proof -
  from assms obtain c where d: "dropWhile (\<lambda>c. c \<noteq> CHR ''_'') s = c # r"
    and g: "g = takeWhile (\<lambda>c. c \<noteq> CHR ''_'') s"
    by (auto simp: segment_def split: list.splits)
  from d have "c = CHR ''_''" using hd_dropWhile[of "\<lambda>c. c \<noteq> CHR ''_''" s] by auto
  with d g have "s = g @ CHR ''_'' # r" using takeWhile_dropWhile_id[of "\<lambda>c. c \<noteq> CHR ''_''" s] by simp
  moreover have "CHR ''_'' \<notin> set g" unfolding g by (auto dest: set_takeWhileD)
  ultimately show ?thesis by simp
qed

lemma destRegex_match:
  assumes "CHR ''_'' \<notin> set g1 \<union> set g2 \<union> set g3"
  shows "destRegex (g1 @ ''_'' @ g2 @ ''_'' @ g3 @ ''_'' @ rest) = Some (g1, g2, g3)"
  using assms by (simp add: destRegex_def segment_append)

lemma destRegex_Some:
  assumes "destRegex s = Some (g1, g2, g3)"
  shows "\<exists>rest. s = g1 @ ''_'' @ g2 @ ''_'' @ g3 @ ''_'' @ rest
           \<and> CHR ''_'' \<notin> set g1 \<union> set g2 \<union> set g3"
proof -
  from assms obtain r1 r2 r3 where
    "segment s = Some (g1, r1)" "segment r1 = Some (g2, r2)" "segment r2 = Some (g3, r3)"
    by (auto simp: destRegex_def split: option.splits)
  then show ?thesis by (auto dest!: segment_Some)
qed

lemma sidRegex_empty: "sidRegex [] = None"
  by (simp add: sidRegex_def sidAt_def sidTail_def)

lemma sidRegex_query: "sidRegex (''sid='' @ tok) = Some (takeWhile (\<lambda>c. c \<noteq> CHR '';'') tok)"
  by (simp add: sidRegex_def sidAt_def sidTail_def isAlnum_def)

lemmas decode_eval = parseDest_def sidRegex_def sidAt_def sidTail_def isAlnum_def
  destRegex_def segment_def parseInt_def isWhiteSpace_def isRadixDigit_def digitValue_def
  digitsValue_def portValue_def dbl_eval

text \<open>The examples of the decoder's behaviour, evaluated.\<close>

lemma parseDest_no_host:
  "parseDest \<lparr>headers = Some Map.empty, url_query = Some ''sid=AAA_8081_ZZZ_xyz''\<rparr> st = None"
  by (simp add: parseDest_def)

lemma parseDest_query_example:
  "parseDest (exampleRequest (Some ''sid=AAA_8081_ZZZ_xyz'') None) st
     = Some \<lparr>host = ''localhost'', port = Some (Num 8081)\<rparr>"
  by (simp add: exampleRequest_def decode_eval)

lemma parseDest_cookie_example:
  "parseDest (exampleRequest None (Some ''foo=1; ssid=BBB_notanumber_CCC_'')) st
     = Some \<lparr>host = ''localhost'', port = portValue (leastBusyPort st)\<rparr>"
  by (simp add: exampleRequest_def decode_eval del: portValue_def) 

lemma parseDest_shapeless_example:
  "parseDest (exampleRequest (Some ''sid=AAA_8081'') None) st = None"
  by (simp add: exampleRequest_def decode_eval)

lemma parseDest_zero_example:
  "parseDest (exampleRequest (Some ''sid=AAA_0_ZZZ_'') None) st
     = Some \<lparr>host = ''localhost'', port = portValue (leastBusyPort st)\<rparr>"
  by (simp add: exampleRequest_def decode_eval del: portValue_def)

lemma parseInt_zero: "parseInt ''0'' = Num 0"
  by (simp add: decode_eval)

lemma parseInt_8081: "parseInt ''8081'' = Num 8081"
  by (simp add: decode_eval)

lemma parseInt_notanumber: "parseInt ''notanumber'' = NaN"
  by (simp add: decode_eval)

text \<open>
  On a non-empty string of decimal digits \<open>parseInt\<close> is the rounded value of the
  digits, and the value itself when that is below \<open>2^53\<close>.
\<close>

lemma decimal_digit:
  assumes "isRadixDigit 10 c"
  shows "\<not> isWhiteSpace c \<and> c \<noteq> CHR ''-'' \<and> c \<noteq> CHR ''+'' \<and> c \<noteq> CHR ''x'' \<and> c \<noteq> CHR ''X''"
proof -
  from assms have r: "48 \<le> (of_char c :: nat) \<and> (of_char c :: nat) \<le> 57"
    by (auto simp: isRadixDigit_def digitValue_def Let_def split: if_splits)
  then have "\<not> isWhiteSpace c" by (auto simp: isWhiteSpace_def Let_def)
  moreover from r have "c \<noteq> CHR ''-''" "c \<noteq> CHR ''+''" "c \<noteq> CHR ''x''" "c \<noteq> CHR ''X''"
    by auto
  ultimately show ?thesis by simp
qed

lemma parseInt_decimal:
  assumes "ds \<noteq> []" and "\<forall>c \<in> set ds. isRadixDigit 10 c"
  shows "parseInt ds = toDouble (of_nat (digitsValue 10 ds))"
proof -
  from assms obtain c r where ds: "ds = c # r" by (cases ds) auto
  with assms(2) have c: "isRadixDigit 10 c" by simp
  note d = decimal_digit[OF c]
  have w: "dropWhile isWhiteSpace ds = ds" using d ds by simp
  have nh: "\<not> (take 2 ds = ''0x'' \<or> take 2 ds = ''0X'')"
  proof (cases r)
    case Nil
    then show ?thesis using ds by simp
  next
    case (Cons c2 r2)
    with assms(2) ds have "isRadixDigit 10 c2" by simp
    from decimal_digit[OF this] show ?thesis using ds Cons by simp
  qed
  have t: "takeWhile (isRadixDigit 10) ds = ds" using assms(2) by (simp add: takeWhile_eq_all_conv)
  have sgn: "(case ds of c # _ \<Rightarrow> if c = CHR ''-'' then - 1 else 1 | [] \<Rightarrow> (1::int)) = 1"
    using d ds by simp
  have s1: "(case ds of c # r \<Rightarrow> if c = CHR ''+'' \<or> c = CHR ''-'' then r else ds | [] \<Rightarrow> ds) = ds"
    using d ds by simp
  show ?thesis
    unfolding parseInt_def Let_def w sgn s1
    by (simp only: nh if_False t) (simp add: assms(1))
qed

text \<open>
  C6, as the code has it. The request has a non-empty \<open>Host\<close> header and the token
  captured from its query, or else from its cookie, begins with three segments free of
  \<open>_\<close>, each followed by \<open>_\<close>. When \<open>parseInt\<close> of the second segment gives a
  number other than \<open>NaN\<close> and zero, the decoder returns \<open>localhost\<close> with that number
  as the port; when it gives \<open>NaN\<close> or zero, the port is the current \<open>leastBusyPort\<close>.
  For a segment of decimal digits whose value is positive and below \<open>2^53\<close> the port is
  exactly that value.
\<close>

theorem parseDest_port:
  assumes "headers req = Some h" and "h ''host'' = Some hv" and "hv \<noteq> []"
    and "(case sidRegex (case url_query req of None \<Rightarrow> [] | Some q \<Rightarrow> q) of
            Some m \<Rightarrow> Some m
          | None \<Rightarrow> sidRegex (case h ''cookie'' of None \<Rightarrow> [] | Some c \<Rightarrow> c))
         = Some (g1 @ ''_'' @ g2 @ ''_'' @ g3 @ ''_'' @ rest)"
    and "CHR ''_'' \<notin> set g1 \<union> set g2 \<union> set g3"
  shows "(parseInt g2 \<noteq> NaN \<and> parseInt g2 \<noteq> Num 0 \<longrightarrow>
            parseDest req st = Some \<lparr>host = ''localhost'', port = Some (parseInt g2)\<rparr>)
         \<and> (parseInt g2 = NaN \<or> parseInt g2 = Num 0 \<longrightarrow>
            parseDest req st = Some \<lparr>host = ''localhost'', port = portValue (leastBusyPort st)\<rparr>)
         \<and> (g2 \<noteq> [] \<and> (\<forall>c \<in> set g2. isRadixDigit 10 c)
              \<and> 0 < digitsValue 10 g2 \<and> digitsValue 10 g2 < 2 ^ 53 \<longrightarrow>
            parseDest req st
              = Some \<lparr>host = ''localhost'', port = Some (Num (of_nat (digitsValue 10 g2)))\<rparr>)"
proof -
  let ?query = "case url_query req of None \<Rightarrow> [] | Some q \<Rightarrow> q"
  let ?cookie = "case h ''cookie'' of None \<Rightarrow> [] | Some c \<Rightarrow> c"
  have ne: "\<not> (?query = [] \<and> ?cookie = [])"
  proof
    assume "?query = [] \<and> ?cookie = []"
    with assms(4) show False by (simp add: sidRegex_empty)
  qed
  have d: "destRegex (g1 @ ''_'' @ g2 @ ''_'' @ g3 @ ''_'' @ rest) = Some (g1, g2, g3)"
    using assms(5) by (rule destRegex_match)
  have p: "parseDest req st =
           Some \<lparr>host = ''localhost'',
                 port = (if parseInt g2 = NaN \<or> parseInt g2 = Num 0
                         then portValue (leastBusyPort st) else Some (parseInt g2))\<rparr>"
    unfolding parseDest_def Let_def using assms(1,2,3) ne
    by (simp add: assms(4) d del: append.simps append_Cons)
  have dec: "g2 \<noteq> [] \<and> (\<forall>c \<in> set g2. isRadixDigit 10 c)
              \<and> 0 < digitsValue 10 g2 \<and> digitsValue 10 g2 < 2 ^ 53 \<longrightarrow>
            parseInt g2 = Num (of_nat (digitsValue 10 g2))"
  proof
    assume a: "g2 \<noteq> [] \<and> (\<forall>c \<in> set g2. isRadixDigit 10 c)
              \<and> 0 < digitsValue 10 g2 \<and> digitsValue 10 g2 < 2 ^ 53"
    then have "parseInt g2 = toDouble (of_nat (digitsValue 10 g2))"
      by (simp add: parseInt_decimal)
    moreover have "toDouble (of_int (int (digitsValue 10 g2))) = Num (of_int (int (digitsValue 10 g2)))"
      using a by (intro toDouble_int) simp
    ultimately show "parseInt g2 = Num (of_nat (digitsValue 10 g2))" by simp
  qed
  show ?thesis using p dec by auto
qed

theorem parseDest_port_witness:
  "parseDest (exampleRequest (Some ''sid=AAA_8081_ZZZ_xyz'') None) exampleBalancer
     = Some \<lparr>host = ''localhost'', port = Some (Num 8081)\<rparr>
   \<and> parseDest (exampleRequest None (Some ''foo=1; ssid=BBB_notanumber_CCC_'')) exampleBalancer
     = Some \<lparr>host = ''localhost'', port = Some (Num 8081)\<rparr>"
proof -
  let ?h = "\<lambda>c name. if name = ''host'' then Some ''example.org''
                            else if name = ''cookie'' then c else None"
  let ?r1 = "exampleRequest (Some ''sid=AAA_8081_ZZZ_xyz'') None"
  let ?c = "Some ''foo=1; ssid=BBB_notanumber_CCC_''"
  let ?r2 = "exampleRequest None ?c"
  have h1: "headers ?r1 = Some (?h None)" by (simp add: exampleRequest_def)
  have t1: "(case sidRegex (case url_query ?r1 of None \<Rightarrow> [] | Some q \<Rightarrow> q) of
            Some m \<Rightarrow> Some m
          | None \<Rightarrow> sidRegex (case ?h None ''cookie'' of None \<Rightarrow> [] | Some c \<Rightarrow> c))
         = Some (''AAA'' @ ''_'' @ ''8081'' @ ''_'' @ ''ZZZ'' @ ''_'' @ ''xyz'')"
    by (simp add: exampleRequest_def sidRegex_def sidAt_def sidTail_def isAlnum_def)
  have u1: "CHR ''_'' \<notin> set ''AAA'' \<union> set ''8081'' \<union> set ''ZZZ''" by simp
  have v1: "''8081'' \<noteq> [] \<and> (\<forall>c \<in> set ''8081''. isRadixDigit 10 c)
              \<and> 0 < digitsValue 10 ''8081'' \<and> digitsValue 10 ''8081'' < 2 ^ 53"
    by (simp add: isRadixDigit_def digitValue_def digitsValue_def)
  have "parseDest ?r1 exampleBalancer
      = Some \<lparr>host = ''localhost'', port = Some (Num (of_nat (digitsValue 10 ''8081'')))\<rparr>"
    using parseDest_port[OF h1 _ _ t1 u1, of "''example.org''" exampleBalancer] v1
    by simp
  then have 1: "parseDest ?r1 exampleBalancer = Some \<lparr>host = ''localhost'', port = Some (Num 8081)\<rparr>"
    by (simp add: digitsValue_def digitValue_def)
  have h2: "headers ?r2 = Some (?h ?c)" by (simp add: exampleRequest_def)
  have t2: "(case sidRegex (case url_query ?r2 of None \<Rightarrow> [] | Some q \<Rightarrow> q) of
            Some m \<Rightarrow> Some m
          | None \<Rightarrow> sidRegex (case ?h ?c ''cookie'' of None \<Rightarrow> [] | Some c \<Rightarrow> c))
         = Some (''BBB'' @ ''_'' @ ''notanumber'' @ ''_'' @ ''CCC'' @ ''_'' @ [])"
    by (simp add: exampleRequest_def sidRegex_def sidAt_def sidTail_def isAlnum_def)
  have u2: "CHR ''_'' \<notin> set ''BBB'' \<union> set ''notanumber'' \<union> set ''CCC''" by simp
  have 2: "parseDest ?r2 exampleBalancer = Some \<lparr>host = ''localhost'', port = Some (Num 8081)\<rparr>"
    using parseDest_port[OF h2 _ _ t2 u2, of "''example.org''" exampleBalancer]
    by (simp add: parseInt_notanumber exampleBalancer_def portValue_def)
  from 1 2 show ?thesis by simp
qed

text \<open>
  As the specification states it, the property fails for the segment \<open>0\<close>: it parses
  as the integer 0, yet the decoder returns the current \<open>leastBusyPort\<close>, here 8081.
\<close>

theorem parseDest_port_counterexample:
  "parseInt ''0'' = Num 0
   \<and> parseDest (exampleRequest (Some ''sid=AAA_0_ZZZ_'') None) exampleBalancer
       = Some \<lparr>host = ''localhost'', port = Some (Num 8081)\<rparr>"
  by (simp add: parseInt_zero parseDest_zero_example) (simp add: exampleBalancer_def portValue_def)

section \<open>What the decoder reads of the balancer\<close>

lemma parseDest_cases:
  "parseDest req st = None
   \<or> (\<exists>n. \<forall>st'. parseDest req st' = Some \<lparr>host = ''localhost'', port = Some n\<rparr>)
   \<or> (\<forall>st'. parseDest req st' = Some \<lparr>host = ''localhost'', port = portValue (leastBusyPort st')\<rparr>)"
  by (auto simp: parseDest_def Let_def split: option.splits)

lemma parseDest_None_any:
  "parseDest req st = None \<Longrightarrow> parseDest req st' = None"
  by (auto simp: parseDest_def Let_def split: option.splits if_splits)

text \<open>
  C7, as the code has it. The decoder returns a value and changes nothing, and of the
  balancer it reads \<open>leastBusyPort\<close> only: under two balancers with the same
  \<open>leastBusyPort\<close> it returns the same result. Under any two balancers it agrees on
  whether there is a hint, and a hint whose port is not the first balancer's
  \<open>leastBusyPort\<close> is returned unchanged under the second.
\<close>

theorem parseDest_reads_leastBusyPort:
  "(leastBusyPort st = leastBusyPort st' \<longrightarrow> parseDest req st = parseDest req st')
   \<and> (parseDest req st = None \<longleftrightarrow> parseDest req st' = None)
   \<and> (parseDest req st = Some d \<and> port d \<noteq> portValue (leastBusyPort st) \<longrightarrow>
        parseDest req st' = Some d)"
proof (intro conjI impI)
  assume "leastBusyPort st = leastBusyPort st'"
  then show "parseDest req st = parseDest req st'"
    by (auto simp: parseDest_def Let_def split: option.splits)
next
  show "parseDest req st = None \<longleftrightarrow> parseDest req st' = None"
    using parseDest_None_any[of req st st'] parseDest_None_any[of req st' st] by blast
next
  assume a: "parseDest req st = Some d \<and> port d \<noteq> portValue (leastBusyPort st)"
  from parseDest_cases[of req st] a show "parseDest req st' = Some d"
    by auto
qed

theorem parseDest_reads_leastBusyPort_witness:
  "parseDest (exampleRequest (Some ''sid=AAA_8082_ZZZ_xyz'') None)
       (exampleBalancer\<lparr>leastBusyPort := Some 8083, workerStatuses := exampleStatuses\<rparr>)
     = Some \<lparr>host = ''localhost'', port = Some (Num 8082)\<rparr>
   \<and> parseDest (exampleRequest None (Some ''foo=1; ssid=BBB_notanumber_CCC_''))
       (exampleBalancer\<lparr>workerStatuses := exampleStatuses\<rparr>)
     = Some \<lparr>host = ''localhost'', port = Some (Num 8081)\<rparr>"
proof -
  let ?r1 = "exampleRequest (Some ''sid=AAA_8082_ZZZ_xyz'') None"
  let ?r2 = "exampleRequest None (Some ''foo=1; ssid=BBB_notanumber_CCC_'')"
  let ?d = "\<lparr>host = ''localhost'', port = Some (Num 8082)\<rparr>"
  have e1: "parseDest ?r1 exampleBalancer = Some ?d"
    by (simp add: exampleRequest_def decode_eval)
  have n1: "port ?d \<noteq> portValue (leastBusyPort exampleBalancer)"
    by (simp add: exampleBalancer_def portValue_def)
  from parseDest_reads_leastBusyPort[of exampleBalancer
      "exampleBalancer\<lparr>leastBusyPort := Some 8083, workerStatuses := exampleStatuses\<rparr>" ?r1 ?d]
    e1 n1
  have 1: "parseDest ?r1 (exampleBalancer\<lparr>leastBusyPort := Some 8083, workerStatuses := exampleStatuses\<rparr>)
     = Some ?d" by blast
  have e2: "parseDest ?r2 exampleBalancer = Some \<lparr>host = ''localhost'', port = Some (Num 8081)\<rparr>"
    by (simp add: parseDest_cookie_example) (simp add: exampleBalancer_def portValue_def)
  have "leastBusyPort exampleBalancer = leastBusyPort (exampleBalancer\<lparr>workerStatuses := exampleStatuses\<rparr>)"
    by simp
  with parseDest_reads_leastBusyPort[of exampleBalancer
      "exampleBalancer\<lparr>workerStatuses := exampleStatuses\<rparr>" ?r2] e2
  have 2: "parseDest ?r2 (exampleBalancer\<lparr>workerStatuses := exampleStatuses\<rparr>)
     = Some \<lparr>host = ''localhost'', port = Some (Num 8081)\<rparr>" by metis
  from 1 2 show ?thesis by simp
qed

text \<open>
  As the specification states it, the property fails: for a cookie whose second segment
  is not a number, two balancers that differ only in \<open>leastBusyPort\<close> give different
  results.
\<close>

theorem parseDest_state_counterexample:
  "parseDest (exampleRequest None (Some ''foo=1; ssid=BBB_notanumber_CCC_'')) exampleBalancer
     = Some \<lparr>host = ''localhost'', port = Some (Num 8081)\<rparr>
   \<and> parseDest (exampleRequest None (Some ''foo=1; ssid=BBB_notanumber_CCC_''))
       (exampleBalancer\<lparr>leastBusyPort := Some 8082\<rparr>)
     = Some \<lparr>host = ''localhost'', port = Some (Num 8082)\<rparr>"
  by (simp add: parseDest_cookie_example) (simp add: exampleBalancer_def portValue_def)

section \<open>Destination resolution\<close>



section \<open>Reachable states\<close>

lemma routed_mono: "routed C st \<Longrightarrow> C \<subseteq> D \<Longrightarrow> routed D st"
  unfolding routed_def by blast

lemma errorDomain_fields:
  "workers (errorDomain e st) = workers st"
  "destPorts (errorDomain e st) = destPorts st"
  "workerStatuses (errorDomain e st) = workerStatuses st"
  "leastBusyPort (errorDomain e st) = leastBusyPort st"
  "polls (errorDomain e st) = polls st"
  "intervals (errorDomain e st) = intervals st"
  by (simp_all add: errorDomain_def)

lemma routed_errorDomain: "routed C (errorDomain e st) = routed C st"
  by (simp add: routed_def errorDomain_fields)

lemma keys_putStatus: "fst ` set (putStatus p v xs) = insert p (fst ` set xs)"
proof (induction xs)
  case Nil
  then show ?case by simp
next
  case (Cons x xs)
  obtain q w where x: "x = (q, w)" by (cases x)
  show ?case unfolding x using Cons.IH by (simp add: insert_commute)
qed

lemma calculate_port:
  assumes "calculateLeastBusyPort u st = Inr st'"
  shows "\<exists>p \<in> fst ` set (workerStatuses st) \<union> port ` set (workers st).
           st' = st\<lparr>leastBusyPort := Some p\<rparr>"
proof (cases "\<exists>e \<in> set (workerStatuses st). num_less (business (snd e)) Infinity")
  case True
  from calculate_some_below[OF True, of u] obtain pre p s post where
    "workerStatuses st = pre @ (p, s) # post"
    "calculateLeastBusyPort u st = Inr (st\<lparr>leastBusyPort := Some p\<rparr>)"
    by blast
  with assms have "p \<in> fst ` set (workerStatuses st)" "st' = st\<lparr>leastBusyPort := Some p\<rparr>"
    by force+
  then show ?thesis by blast
next
  case False
  then have "\<forall>e \<in> set (workerStatuses st). \<not> num_less (business (snd e)) Infinity" by blast
  from calculate_none_below[OF this, of u] assms
  obtain p where "randomPort u st = Inr p" "st' = st\<lparr>leastBusyPort := Some p\<rparr>"
    by (auto split: sum.splits)
  with randomPort_member[of u st p] show ?thesis by blast
qed

lemma routed_calculate:
  assumes "routed C st" and "calculateLeastBusyPort u st = Inr st'"
  shows "routed C st'"
proof -
  from calculate_port[OF assms(2)] obtain p where
    p: "p \<in> fst ` set (workerStatuses st) \<union> port ` set (workers st)"
    and st': "st' = st\<lparr>leastBusyPort := Some p\<rparr>" by blast
  from p assms(1) have "p \<in> C" unfolding routed_def by blast
  with assms(1) show ?thesis unfolding routed_def st' by simp
qed

lemma routed_updateStatus: "routed C st \<Longrightarrow> routed C (updateStatus st)"
  unfolding routed_def updateStatus_def by auto

lemma routed_socketTimeout:
  assumes "routed C st"
  shows "routed C (socketTimeout c p st)"
proof (cases "c < length (polls st) \<and> p \<in> set (pending (polls st ! c))")
  case False
  then have "socketTimeout c p st = st" by (auto simp: socketTimeout_def)
  with assms show ?thesis by simp
next
  case True
  let ?pl = "(polls st ! c)\<lparr>pending := remove1 p (pending (polls st ! c))\<rparr>"
  from True have "polls st ! c \<in> set (polls st)" by simp
  with assms have "set (pending (polls st ! c)) \<subseteq> C" unfolding routed_def by blast
  then have "set (remove1 p (pending (polls st ! c))) \<subseteq> C"
    using set_remove1_subset[of p "pending (polls st ! c)"] by blast
  then have "set (pending ?pl) \<subseteq> C" by simp
  with assms have "\<forall>pl \<in> set ((polls st)[c := ?pl]). set (pending pl) \<subseteq> C"
    unfolding routed_def using set_update_subset_insert[of "polls st" c ?pl] by blast
  with assms True show ?thesis
    by (simp add: socketTimeout_def Let_def routed_errorDomain) (simp add: routed_def)
qed

lemma routed_responseEnd:
  assumes "routed C st"
  shows "routed C (responseEnd c p b u st)"
proof (cases "c < length (polls st) \<and> p \<in> set (pending (polls st ! c))")
  case False
  then have "responseEnd c p b u st = st" by (auto simp: responseEnd_def)
  with assms show ?thesis by simp
next
  case True
  let ?pl = "polls st ! c"
  let ?pl' = "?pl\<lparr>statusesRead := statusesRead ?pl + 1, pending := remove1 p (pending ?pl)\<rparr>"
  let ?st1 = "st\<lparr>workerStatuses := putStatus p (parsedStatus b) (workerStatuses st)\<rparr>"
  let ?st2 = "?st1\<lparr>polls := (polls ?st1)[c := ?pl']\<rparr>"
  from True have mem: "?pl \<in> set (polls st)" by simp
  with assms True have pC: "p \<in> C" unfolding routed_def by blast
  from mem assms have "set (pending ?pl) \<subseteq> C" unfolding routed_def by blast
  then have "set (remove1 p (pending ?pl)) \<subseteq> C"
    using set_remove1_subset[of p "pending ?pl"] by blast
  then have "set (pending ?pl') \<subseteq> C" by simp
  with assms have pls: "\<forall>pl \<in> set ((polls st)[c := ?pl']). set (pending pl) \<subseteq> C"
    unfolding routed_def using set_update_subset_insert[of "polls st" c ?pl'] by blast
  have r2: "routed C ?st2"
    using assms pC pls unfolding routed_def by (simp add: keys_putStatus)
  have "responseEnd c p b u st =
          (if workerCount ?pl' \<le> statusesRead ?pl'
           then (case calculateLeastBusyPort u ?st2 of
                   Inr st3 \<Rightarrow> st3
                 | Inl e \<Rightarrow> errorDomain (thrown e) ?st2)
           else ?st2)"
    unfolding responseEnd_def Let_def by (simp only: True simp_thms if_True)
  then show ?thesis
    using r2 by (auto split: sum.splits simp: routed_errorDomain routed_calculate)
qed

lemma routed_setWorkers:
  "routed C st \<Longrightarrow> routed (C \<union> port ` set ws) (setWorkers ws st)"
  unfolding routed_def setWorkers_def by auto

lemma routed_step:
  assumes "routed C st" and "\<And>ws. e \<noteq> SetWorkers ws"
  shows "routed C (step e st)"
  using assms
  by (cases e)
    (auto simp: routed_updateStatus routed_responseEnd routed_socketTimeout routed_errorDomain
      split: sum.splits)

lemma workers_step:
  "(\<And>ws. e \<noteq> SetWorkers ws) \<Longrightarrow> workers (step e st) = workers st"
  "(\<And>ws. e \<noteq> SetWorkers ws) \<Longrightarrow> destPorts (step e st) = destPorts st"
  by (cases e;
      auto simp: updateStatus_def responseEnd_def socketTimeout_def Let_def errorDomain_fields
        dest!: calculate_frame split: sum.splits)+

lemma configured_current: "port ` set ws \<subseteq> configured ws evs"
  by (induction ws evs rule: configured.induct) auto

lemma routed_run:
  assumes "routed C st"
  shows "routed (C \<union> configured (workers st) evs) (run evs st)"
  using assms
proof (induction evs arbitrary: C st)
  case Nil
  then show ?case unfolding run_def routed_def by auto
next
  case (Cons e evs)
  show ?case
  proof (cases "\<exists>ws. e = SetWorkers ws")
    case True
    then obtain ws where e: "e = SetWorkers ws" by blast
    from Cons.prems have "routed (C \<union> port ` set ws) (setWorkers ws st)"
      by (rule routed_setWorkers)
    from Cons.IH[OF this]
    have "routed (C \<union> port ` set ws \<union> configured ws evs) (run evs (setWorkers ws st))"
      by (simp add: setWorkers_def)
    then have "routed (C \<union> configured (workers st) (e # evs)) (run evs (setWorkers ws st))"
      by (rule routed_mono) (use e configured_current[of ws evs] in auto)
    then show ?thesis by (simp add: run_def e)
  next
    case False
    then have ne: "\<And>ws. e \<noteq> SetWorkers ws" by blast
    from routed_step[OF Cons.prems ne] have "routed C (step e st)" .
    from Cons.IH[OF this] have "routed (C \<union> configured (workers st) evs) (run evs (step e st))"
      by (simp add: workers_step(1)[OF ne])
    moreover have "configured (workers st) (e # evs) = configured (workers st) evs"
      using ne by (cases e) auto
    ultimately show ?thesis by (simp add: run_def)
  qed
qed

lemma routed_constructed:
  assumes "LoadBalancer ws interval u = Inr s0"
  shows "routed (port ` set ws) s0 \<and> workers s0 = ws \<and> dom (destPorts s0) = port ` set ws"
proof -
  let ?st0 = "\<lparr>workers = [], destPorts = Map.empty, workerStatuses = [],
                 leastBusyPort = None,
                 statusCheckInterval =
                   (case interval of None \<Rightarrow> 5000 | Some n \<Rightarrow> if n = 0 then 5000 else n),
                 intervals = [], polls = [], emitted = []\<rparr>"
  let ?st2 = "(setWorkers ws ?st0)\<lparr>workerStatuses := []\<rparr>"
  from assms obtain p where p: "randomPort u ?st2 = Inr p" and s0: "s0 = ?st2\<lparr>leastBusyPort := Some p\<rparr>"
    by (auto simp: LoadBalancer_def Let_def split: sum.splits)
  have w: "workers ?st2 = ws" by (simp add: setWorkers_def)
  from randomPort_member[OF p] w have "p \<in> port ` set ws" by simp
  then show ?thesis
    unfolding s0 routed_def by (simp add: setWorkers_def dom_fold_ports)
qed

lemma destPorts_run:
  assumes "\<And>ws. SetWorkers ws \<notin> set evs"
  shows "destPorts (run evs st) = destPorts st \<and> configured ws evs = port ` set ws"
  using assms
proof (induction evs arbitrary: st)
  case Nil
  then show ?case by (simp add: run_def)
next
  case (Cons e evs)
  from Cons.prems have ne: "\<And>ws. e \<noteq> SetWorkers ws" by auto
  from Cons.prems have "\<And>ws. SetWorkers ws \<notin> set evs" by auto
  from Cons.IH[OF this, of "step e st"] workers_step(2)[OF ne, of st]
  have "destPorts (run (e # evs) st) = destPorts st" by (simp add: run_def)
  moreover have "configured ws (e # evs) = configured ws evs" using ne by (cases e) auto
  ultimately show ?case using Cons.IH[OF \<open>\<And>ws. SetWorkers ws \<notin> set evs\<close>] by simp
qed

text \<open>
  C8, as the code has it. In every state a constructed balancer reaches, \<open>leastBusyPort\<close>
  is defined and is the port of a worker of the pool given to the constructor or to
  some reconfiguration so far; as long as the pool has not been reconfigured it is a
  key of \<open>destPorts\<close>.
\<close>

theorem leastBusyPort_configured:
  "LoadBalancer ws interval u = Inr s0 \<longrightarrow>
     (\<exists>p \<in> configured ws evs. leastBusyPort (run evs s0) = Some p
        \<and> ((\<forall>ws'. SetWorkers ws' \<notin> set evs) \<longrightarrow> p \<in> dom (destPorts (run evs s0))))"
proof
  assume c: "LoadBalancer ws interval u = Inr s0"
  from routed_constructed[OF c] have r: "routed (port ` set ws) s0" and w: "workers s0 = ws"
    and d: "dom (destPorts s0) = port ` set ws" by blast+
  from routed_run[OF r, of evs] w configured_current[of ws evs]
  have "routed (configured ws evs) (run evs s0)" by (simp add: Un_absorb1)
  then obtain p where p: "p \<in> configured ws evs" "leastBusyPort (run evs s0) = Some p"
    unfolding routed_def by blast
  have "(\<forall>ws'. SetWorkers ws' \<notin> set evs) \<longrightarrow> p \<in> dom (destPorts (run evs s0))"
  proof
    assume "\<forall>ws'. SetWorkers ws' \<notin> set evs"
    then have "destPorts (run evs s0) = destPorts s0 \<and> configured ws evs = port ` set ws"
      using destPorts_run[of evs s0 ws] by blast
    with p(1) d show "p \<in> dom (destPorts (run evs s0))" by simp
  qed
  with p show "\<exists>p \<in> configured ws evs. leastBusyPort (run evs s0) = Some p
        \<and> ((\<forall>ws'. SetWorkers ws' \<notin> set evs) \<longrightarrow> p \<in> dom (destPorts (run evs s0)))"
    by blast
qed

lemma run_examplePolling:
  "run examplePolling exampleBalancer =
     exampleBalancer
       \<lparr>workerStatuses :=
          [(8081, Some \<lparr>clientCount = 5, httpRPM = 5, ioRPM = 5\<rparr>),
           (8082, Some \<lparr>clientCount = 0, httpRPM = 0, ioRPM = 0\<rparr>)],
        leastBusyPort := Some 8082,
        polls := [\<lparr>statusesRead = 2, workerCount = 2, pending = []\<rparr>]\<rparr>"
  by (simp add: run_def examplePolling_def exampleBalancer_def examplePool_def updateStatus_def
      responseEnd_def parsedStatus_def isIndex_def calculateLeastBusyPort_def business_def
      dbl_eval)

theorem leastBusyPort_configured_witness:
  "leastBusyPort (run examplePolling exampleBalancer) = Some 8082
   \<and> 8082 \<in> configured examplePool examplePolling
   \<and> 8082 \<in> dom (destPorts (run examplePolling exampleBalancer))"
proof -
  have n: "\<forall>ws'. SetWorkers ws' \<notin> set examplePolling" by (simp add: examplePolling_def)
  from leastBusyPort_configured[of examplePool None 0 exampleBalancer examplePolling]
    exampleBalancer_constructed n
  obtain p where "p \<in> configured examplePool examplePolling"
    "leastBusyPort (run examplePolling exampleBalancer) = Some p"
    "p \<in> dom (destPorts (run examplePolling exampleBalancer))"
    by blast
  moreover have "leastBusyPort (run examplePolling exampleBalancer) = Some 8082"
    by (simp add: run_examplePolling)
  ultimately show ?thesis by simp
qed

text \<open>
  As the specification states it, the property fails after a reconfiguration: the
  aggregation stored 8082, the initial pick was 8081, and the new pool knows port 9000
  only.
\<close>

theorem leastBusyPort_known_counterexample:
  "LoadBalancer examplePool None 0 = Inr exampleBalancer
   \<and> leastBusyPort exampleBalancer = Some 8081
   \<and> leastBusyPort (run (examplePolling @ [SetWorkers nextPool]) exampleBalancer) = Some 8082
   \<and> dom (destPorts (run (examplePolling @ [SetWorkers nextPool]) exampleBalancer)) = {9000}"
proof -
  have "run (examplePolling @ [SetWorkers nextPool]) exampleBalancer
          = setWorkers nextPool (run examplePolling exampleBalancer)"
    by (simp add: run_def)
  then show ?thesis
    by (simp add: exampleBalancer_constructed run_examplePolling)
      (simp add: setWorkers_def dom_fold_ports exampleBalancer_def nextPool_def)
qed

section \<open>A status request that times out\<close>

text \<open>
  The timeout handler stores no status and counts no completion: the status slots,
  \<open>leastBusyPort\<close> and every run's \<open>statusesRead\<close> are as before.
\<close>

lemma socketTimeout_frame:
  "workerStatuses (socketTimeout c p st) = workerStatuses st
   \<and> leastBusyPort (socketTimeout c p st) = leastBusyPort st
   \<and> map statusesRead (polls (socketTimeout c p st)) = map statusesRead (polls st)
   \<and> map workerCount (polls (socketTimeout c p st)) = map workerCount (polls st)"
  by (auto simp: socketTimeout_def Let_def errorDomain_fields map_update list_update_same_conv)

text \<open>
  A run of \<open>_updateStatus\<close> that has fewer completions and requests in flight than
  workers (one of its requests timed out) never aggregates: a response that ends
  leaves \<open>leastBusyPort\<close> alone and the run stays short.
\<close>

lemma responseEnd_short:
  assumes "c < length (polls st)"
    and "statusesRead (polls st ! c) + length (pending (polls st ! c)) < workerCount (polls st ! c)"
  shows "leastBusyPort (responseEnd c p b u st) = leastBusyPort st
    \<and> statusesRead (polls (responseEnd c p b u st) ! c)
        + length (pending (polls (responseEnd c p b u st) ! c))
      < workerCount (polls (responseEnd c p b u st) ! c)"
proof (cases "p \<in> set (pending (polls st ! c))")
  case False
  then have "responseEnd c p b u st = st" by (auto simp: responseEnd_def)
  with assms show ?thesis by simp
next
  case True
  then have "length (remove1 p (pending (polls st ! c))) + 1 = length (pending (polls st ! c))"
    by (simp add: length_remove1) (cases "pending (polls st ! c)"; simp)
  with assms True show ?thesis
    by (simp add: responseEnd_def Let_def)
qed

text \<open>
  C3 at a concrete run. Both workers answered the first polling run and 8081 was
  chosen. In the second run the request to 8081 times out and 8082 answers: the slot
  of 8081 keeps its old status, the run ends with one completion out of two and nothing
  in flight, and \<open>leastBusyPort\<close> is still 8081. Had the response of 8081 ended with an
  empty body instead, its slot would hold no status and the aggregation would have
  chosen 8082.
\<close>

theorem timeout_skips_aggregation:
  "workerStatuses (run timeoutRun exampleBalancer)
     = [(8081, Some \<lparr>clientCount = 0, httpRPM = 0, ioRPM = 0\<rparr>),
        (8082, Some \<lparr>clientCount = 1, httpRPM = 1, ioRPM = 1\<rparr>)]
   \<and> leastBusyPort (run timeoutRun exampleBalancer) = Some 8081
   \<and> polls (run timeoutRun exampleBalancer) ! 1
       = \<lparr>statusesRead = 1, workerCount = 2, pending = []\<rparr>
   \<and> workerStatuses (run emptyBodyRun exampleBalancer)
       = [(8081, None), (8082, Some \<lparr>clientCount = 1, httpRPM = 1, ioRPM = 1\<rparr>)]
   \<and> leastBusyPort (run emptyBodyRun exampleBalancer) = Some 8082"
  by (simp add: run_def timeoutRun_def emptyBodyRun_def firstPolling_def exampleBalancer_def
      examplePool_def updateStatus_def responseEnd_def socketTimeout_def errorDomain_def
      parsedStatus_def isIndex_def calculateLeastBusyPort_def business_def dbl_eval)

section \<open>Rounding of large integers\<close>

lemma excessBits_eq:
  "0 < k \<Longrightarrow> 2 ^ (52 + k) \<le> n \<Longrightarrow> n < 2 ^ (53 + k) \<Longrightarrow> excessBits n = k"
proof (induction k arbitrary: n)
  case 0
  then show ?case by simp
next
  case (Suc j)
  have p1: "(2::nat) ^ (52 + Suc j) = 2 * 2 ^ (52 + j)" by (simp only: add_Suc_right power_Suc)
  have p2: "(2::nat) ^ (53 + Suc j) = 2 * 2 ^ (53 + j)" by (simp only: add_Suc_right power_Suc)
  have p3: "(2::nat) ^ 53 \<le> 2 * 2 ^ (52 + j)" by (simp add: power_add)
  from Suc.prems(2) p1 p3 have big: "\<not> n < 2 ^ 53" by linarith
  then have e: "excessBits n = Suc (excessBits (n div 2))" by (subst excessBits.simps) simp
  from Suc.prems(2) p1 have lo: "2 ^ (52 + j) \<le> n div 2" by linarith
  from Suc.prems(3) p2 have hi: "n div 2 < 2 ^ (53 + j)" by linarith
  show ?case
  proof (cases "0 < j")
    case True
    from Suc.IH[OF True lo hi] e show ?thesis by simp
  next
    case False
    with hi have "n div 2 < 2 ^ 53" by simp
    then have "excessBits (n div 2) = 0" by (subst excessBits.simps) simp
    with e False show ?thesis by simp
  qed
qed

text \<open>
  An integer of \<open>53 + k\<close> bits keeps its upper 53 bits, rounded by the lower \<open>k\<close>
  bits, ties to even.
\<close>

lemma toDouble_round_nat:
  assumes "0 < k" and "2 ^ (52 + k) \<le> N" and "N < 2 ^ (53 + k)"
  shows "toDouble (of_nat N) =
           (let q = N div 2 ^ k;
                rem = N mod 2 ^ k;
                q' = (if 2 ^ k < 2 * rem \<or> (2 * rem = 2 ^ k \<and> odd q) then q + 1 else q)
            in if 2 ^ 1024 \<le> q' * 2 ^ k then Infinity else Num (of_nat (q' * 2 ^ k)))"
proof -
  define d where "d = denormBits"
  define q where "q = N div 2 ^ k"
  define rm where "rm = N mod 2 ^ k"
  define q' where "q' = (if 2 ^ k < 2 * rm \<or> (2 * rm = 2 ^ k \<and> odd q) then q + 1 else q)"
  let ?y = "\<bar>of_nat N :: real\<bar> * 2 ^ d"
  have y: "?y = of_nat (N * 2 ^ d)" by simp
  have fl: "nat \<lfloor>?y\<rfloor> = N * 2 ^ d" unfolding y by (simp only: floor_of_nat nat_int)
  have "2 ^ (52 + k) * 2 ^ d \<le> N * 2 ^ d" using assms(2) by simp
  then have lo: "2 ^ (52 + (k + d)) \<le> N * 2 ^ d" by (simp add: power_add mult_ac)
  have "N * 2 ^ d < 2 ^ (53 + k) * 2 ^ d" using assms(3) by simp
  then have hi: "N * 2 ^ d < 2 ^ (53 + (k + d))" by (simp add: power_add mult_ac)
  have s: "excessBits (N * 2 ^ d) = k + d"
    using assms(1) lo hi by (intro excessBits_eq) simp_all
  have N: "N = q * 2 ^ k + rm" unfolding q_def rm_def by (rule div_mult_mod_eq[symmetric])
  have yq: "?y / 2 ^ (k + d) = of_nat N / of_nat (2 ^ k)"
    by (simp add: power_add)
  have fq: "\<lfloor>?y / 2 ^ (k + d)\<rfloor> = int q"
    unfolding yq q_def by (rule floor_divide_of_nat_eq)
  have rem: "?y - of_int (int q) * 2 ^ (k + d) = of_nat rm * 2 ^ d"
    by (subst N) (simp add: power_add algebra_simps)
  have c1: "((2::real) ^ (k + d) < 2 * (of_nat rm * 2 ^ d)) = (2 ^ k < 2 * rm)"
  proof -
    have "((2::real) ^ (k + d) < 2 * (of_nat rm * 2 ^ d)) = (of_nat (2 ^ k) * 2 ^ d < of_nat (2 * rm) * (2::real) ^ d)"
      by (simp add: power_add mult_ac)
    also have "\<dots> = (of_nat (2 ^ k) < (of_nat (2 * rm) :: real))"
      by (subst mult_less_cancel_right_pos) simp_all
    also have "\<dots> = (2 ^ k < 2 * rm)" by (simp only: of_nat_less_iff)
    finally show ?thesis .
  qed
  have c2: "(2 * (of_nat rm * 2 ^ d) = (2::real) ^ (k + d)) = (2 * rm = 2 ^ k)"
  proof -
    have "(2 * (of_nat rm * 2 ^ d) = (2::real) ^ (k + d)) = (of_nat (2 * rm) * (2::real) ^ d = of_nat (2 ^ k) * 2 ^ d)"
      by (simp add: power_add mult_ac)
    also have "\<dots> = ((of_nat (2 * rm) :: real) = of_nat (2 ^ k))" by simp
    also have "\<dots> = (2 * rm = 2 ^ k)" by (simp only: of_nat_eq_iff)
    finally show ?thesis .
  qed
  have c3: "odd (int q) = odd q" by simp
  have q'i: "(if 2 ^ k < 2 * rm \<or> (2 * rm = 2 ^ k \<and> odd q) then int q + 1 else int q) = int q'"
    unfolding q'_def by simp
  have r: "of_int (int q') * (2::real) ^ (k + d) = of_nat (q' * 2 ^ k) * 2 ^ d"
    by (simp add: power_add)
  have ov: "((2::real) ^ (1024 + d) \<le> of_nat (q' * 2 ^ k) * 2 ^ d) = (2 ^ 1024 \<le> q' * 2 ^ k)"
  proof -
    have "((2::real) ^ (1024 + d) \<le> of_nat (q' * 2 ^ k) * 2 ^ d)
            = (of_nat (2 ^ 1024) * (2::real) ^ d \<le> of_nat (q' * 2 ^ k) * 2 ^ d)"
      by (simp add: power_add)
    also have "\<dots> = ((of_nat (2 ^ 1024) :: real) \<le> of_nat (q' * 2 ^ k))"
      by (subst mult_le_cancel_right_pos) simp_all
    also have "\<dots> = (2 ^ 1024 \<le> q' * 2 ^ k)" by (simp only: of_nat_le_iff)
    finally show ?thesis .
  qed
  have pos: "\<not> (of_nat N :: real) < 0" by simp
  have dv: "of_nat (q' * 2 ^ k) * (2::real) ^ d / 2 ^ d = of_nat (q' * 2 ^ k)" by simp
  show ?thesis
    unfolding toDouble_def Let_def d_def[symmetric] fl s fq rem c1 c2 c3 q'i r ov
      q_def[symmetric] rm_def[symmetric] q'_def[symmetric]
    by (simp only: pos if_False dv)
qed

text \<open>
  Three roundings a double makes: \<open>2^53 + 1\<close> is a tie and goes to the even
  significand, \<open>2^53 + 3\<close> is a tie and goes up, and \<open>2^1024\<close> overflows.
\<close>

lemma toDouble_tie_down: "toDouble 9007199254740993 = Num 9007199254740992"
  using toDouble_round_nat[of 1 9007199254740993] by simp

lemma toDouble_tie_up: "toDouble 9007199254740995 = Num 9007199254740996"
  using toDouble_round_nat[of 1 9007199254740995] by simp

lemma parseInt_rounds: "parseInt ''9007199254740993'' = Num 9007199254740992"
proof -
  have "parseInt ''9007199254740993'' = toDouble (of_nat (digitsValue 10 ''9007199254740993''))"
    by (rule parseInt_decimal) (simp_all add: isRadixDigit_def digitValue_def)
  also have "digitsValue 10 ''9007199254740993'' = 9007199254740993"
    by (simp add: digitsValue_def digitValue_def)
  finally show ?thesis by (simp add: toDouble_tie_down)
qed

text \<open>
  Two slots whose exact sums differ by one but whose scores are the same double tie:
  the earlier slot wins.
\<close>

lemma business_rounds:
  "business (Some \<lparr>clientCount = 1, httpRPM = 9007199254740992, ioRPM = 0\<rparr>)
     = Num 9007199254740992"
proof -
  have h: "toDouble 9007199254740992 = Num 9007199254740992"
    using toDouble_round_nat[of 1 9007199254740992] by simp
  show ?thesis
    by (simp add: business_def h toDouble_zero toDouble_one toDouble_tie_down)
qed

text \<open>
  A status whose fields are finite but whose sum overflows has the score \<open>Infinity\<close>,
  like a slot without a status.
\<close>

lemma business_overflows:
  "business (Some \<lparr>clientCount = 0, httpRPM = 10 ^ 308, ioRPM = 10 ^ 308\<rparr>) = Infinity"
proof -
  define D :: nat where "D = (10 ^ 308 div 2 ^ 971 + 1) * 2 ^ 971"
  have "toDouble (of_nat (10 ^ 308)) = Num (of_nat D)"
    unfolding D_def using toDouble_round_nat[of 971 "10 ^ 308"] by simp
  then have t: "toDouble (10 ^ 308) = Num (of_nat D)" by simp
  have "(2::nat) ^ 1024 \<le> D + D" unfolding D_def by simp
  then have "(of_nat (2 ^ 1024) :: real) \<le> of_nat (D + D)" by (simp only: of_nat_le_iff)
  then have "(2::real) ^ 1024 \<le> \<bar>of_nat D + of_nat D\<bar>" by simp
  from toDouble_overflow[OF this] have s: "toDouble (of_nat D + of_nat D) = Infinity" by simp
  show ?thesis
    unfolding business_Some by (simp only: status.simps t num_add.simps s toDouble_zero)
qed

end
